theory Spec2Isabelle
  imports Complex_Main
begin

section \<open>Strings and the Go standard library\<close>

text \<open>
  A Go string is a sequence of bytes, modelled as \<open>string\<close> (a list of 8-bit
  characters).  The two characters that cannot be written inside a string literal get a
  name each.
\<close>

definition bslash :: char where
  "bslash = CHR 0x5C"

definition dquote :: char where
  "dquote = CHR 0x22"

text \<open>
  \<open>re\<close> writes a regular expression of the source with \<open>%\<close> standing for the
  backslash (no pattern of the source contains a percent sign).
\<close>

definition re :: "string \<Rightarrow> string" where
  "re s = map (\<lambda>c. if c = CHR ''%'' then bslash else c) s"

subsection \<open>Byte-level functions of package strings\<close>

definition HasPrefix :: "string \<Rightarrow> string \<Rightarrow> bool" where
  "HasPrefix s p = (length p \<le> length s \<and> take (length p) s = p)"

definition HasSuffix :: "string \<Rightarrow> string \<Rightarrow> bool" where
  "HasSuffix s p = (length p \<le> length s \<and> drop (length s - length p) s = p)"

fun Contains :: "string \<Rightarrow> string \<Rightarrow> bool" where
  "Contains [] sub = (sub = [])"
| "Contains (c # cs) sub = (HasPrefix (c # cs) sub \<or> Contains cs sub)"

text \<open>\<open>strings.Split\<close>, for the one-byte separator the source passes (the newline).\<close>

fun Split :: "string \<Rightarrow> char \<Rightarrow> string list" where
  "Split [] sep = [[]]"
| "Split (c # cs) sep =
     (if c = sep then [] # Split cs sep
      else (case Split cs sep of
              [] \<Rightarrow> [[c]]
            | l # ls \<Rightarrow> (c # l) # ls))"

subsection \<open>What the standard library decides\<close>

text \<open>
  An instant: seconds since January 1, year 1 (UTC) and nanoseconds, as \<open>time.Time\<close>
  keeps them.  The zero value of the type is the instant \<open>IsZero\<close> recognises.
\<close>

datatype gotime = Time (sec: int) (nsec: int)

definition zeroTime :: gotime where
  "zeroTime = Time 0 0"

definition IsZero :: "gotime \<Rightarrow> bool" where
  "IsZero t = (sec t = 0 \<and> nsec t = 0)"

text \<open>
  A value of type \<open>interface{}\<close> as this program meets it: what \<open>encoding/json\<close>
  decodes into (string, float64, bool, nil, nested object, array), and the strings of the
  flat tokenizer.  A decoded number is a finite float64, hence a real number.
\<close>

datatype jvalue =
    JString string
  | JNumber real
  | JBool bool
  | JNull
  | JObject "(string \<times> jvalue) list"
  | JArray "jvalue list"

text \<open>
  The functions of the standard library whose results this development does not compute
  are parameters, collected in one record:
  \<^item> \<open>ToUpperUnicode\<close>, \<open>TrimSpaceUnicode\<close>: \<open>strings.ToUpper\<close> and
    \<open>strings.TrimSpace\<close> on a string with a byte outside ASCII (on ASCII strings both
    are computed below);
  \<^item> \<open>Int64OutOfRange\<close>: the implementation-dependent result of converting a float64
    that no int64 represents;
  \<^item> \<open>time_Parse layout s\<close>: \<open>None\<close> when \<open>time.Parse\<close> returns an error;
  \<^item> \<open>time_Unix s\<close>: \<open>time.Unix(s, 0)\<close>;
  \<^item> \<open>time_Now i\<close>: what \<open>time.Now()\<close> returns while line \<open>i\<close> of a batch is
    extracted;
  \<^item> \<open>json_Unmarshal s\<close>: decoding into a \<open>map[string]interface{}\<close>, \<open>Inl\<close> the error;
  \<^item> \<open>regexp_Compile p\<close>: \<open>None\<close> when the pattern does not compile, else the
    compiled expression, represented by its \<open>FindStringSubmatch\<close> (\<open>None\<close> for nil).
\<close>

record go_lib =
  ToUpperUnicode :: "string \<Rightarrow> string"
  TrimSpaceUnicode :: "string \<Rightarrow> string"
  Int64OutOfRange :: "real \<Rightarrow> int"
  time_Parse :: "string \<Rightarrow> string \<Rightarrow> gotime option"
  time_Unix :: "int \<Rightarrow> gotime"
  time_Now :: "nat \<Rightarrow> gotime"
  json_Unmarshal :: "string \<Rightarrow> string + (string \<rightharpoonup> jvalue)"
  regexp_Compile :: "string \<Rightarrow> (string \<Rightarrow> string list option) option"

definition isASCII :: "char \<Rightarrow> bool" where
  "isASCII c = (of_char c < (128::nat))"

definition asciiUpper :: "char \<Rightarrow> char" where
  "asciiUpper c =
     (if (97::nat) \<le> of_char c \<and> of_char c \<le> (122::nat)
      then char_of (of_char c - (32::nat)) else c)"

text \<open>The six ASCII bytes \<open>strings.TrimSpace\<close> removes: tab, LF, VT, FF, CR, space.\<close>

definition asciiSpace :: "char \<Rightarrow> bool" where
  "asciiSpace c = (of_char c \<in> {9, 10, 11, 12, 13, 32::nat})"

definition ToUpper :: "go_lib \<Rightarrow> string \<Rightarrow> string" where
  "ToUpper L s = (if list_all isASCII s then map asciiUpper s else ToUpperUnicode L s)"

definition TrimSpace :: "go_lib \<Rightarrow> string \<Rightarrow> string" where
  "TrimSpace L s =
     (if list_all isASCII s
      then rev (dropWhile asciiSpace (rev (dropWhile asciiSpace s)))
      else TrimSpaceUnicode L s)"

text \<open>
  The conversion \<open>int64(v)\<close> of a float64: the fraction is discarded (truncation towards
  zero); outside the range of int64 the result is the implementation's.
\<close>

definition int64_of_float64 :: "go_lib \<Rightarrow> real \<Rightarrow> int" where
  "int64_of_float64 L v =
     (let t = (if 0 \<le> v then \<lfloor>v\<rfloor> else \<lceil>v\<rceil>)
      in if - (2 ^ 63) \<le> t \<and> t < 2 ^ 63 then t else Int64OutOfRange L v)"

section \<open>types.go: formats, levels, timestamps\<close>

record LogEntry =
  Timestamp :: gotime
  Level :: string
  Message :: string
  Fields :: "string \<rightharpoonup> jvalue"

text \<open>\<open>Format\<close> is an integer type with four named values.\<close>

type_synonym Format = int

definition FormatAuto :: Format where "FormatAuto = 0"
definition FormatJSON :: Format where "FormatJSON = 1"
definition FormatLogfmt :: Format where "FormatLogfmt = 2"
definition FormatText :: Format where "FormatText = 3"

definition LevelInfo :: string where "LevelInfo = ''INFO''"
definition LevelError :: string where "LevelError = ''ERROR''"

definition LevelIndex :: int where "LevelIndex = 2"
definition MessageIndex :: int where "MessageIndex = 3"
definition MessageIndexAlt :: int where "MessageIndexAlt = 2"

definition Format_String :: "Format \<Rightarrow> string" where
  "Format_String f =
     (if f = FormatJSON then ''json''
      else if f = FormatLogfmt then ''logfmt''
      else if f = FormatText then ''text''
      else if f = FormatAuto then ''auto''
      else ''unknown'')"

definition ParseLevel :: "go_lib \<Rightarrow> string \<Rightarrow> string" where
  "ParseLevel L s =
     (let u = ToUpper L s in
      if u = ''DEBUG'' \<or> u = ''DBG'' then ''DEBUG''
      else if u = LevelInfo \<or> u = ''INF'' then ''INFO''
      else if u = ''WARN'' \<or> u = ''WARNING'' \<or> u = ''WRN'' then ''WARN''
      else if u = ''ERROR'' \<or> u = ''ERR'' then ''ERROR''
      else if u = ''FATAL'' \<or> u = ''FTL'' then ''FATAL''
      else ''INFO'')"

record ParseError =
  Type :: string
  Value :: jvalue
  Err :: string

datatype error =
    ErrEmptyLine
  | ErrInvalidJSON string
  | ErrAutoDetect

definition RFC3339 :: string where
  "RFC3339 = ''2006-01-02T15:04:05Z07:00''"

definition RFC3339Nano :: string where
  "RFC3339Nano = ''2006-01-02T15:04:05.999999999Z07:00''"

definition timestampFormats :: "string list" where
  "timestampFormats =
     [RFC3339, RFC3339Nano, ''2006-01-02T15:04:05.000Z'', ''2006-01-02 15:04:05'',
      ''Jan 02 15:04:05'']"

text \<open>The loop of \<open>parseTimestamp\<close> over the formats: the first parse that succeeds.\<close>

fun tryFormats :: "go_lib \<Rightarrow> string list \<Rightarrow> string \<Rightarrow> gotime option" where
  "tryFormats L [] v = None"
| "tryFormats L (format # formats) v =
     (case time_Parse L format v of
        Some t \<Rightarrow> Some t
      | None \<Rightarrow> tryFormats L formats v)"

fun parseTimestamp :: "go_lib \<Rightarrow> jvalue \<Rightarrow> ParseError + gotime" where
  "parseTimestamp L (JString v) =
     (case tryFormats L timestampFormats v of
        Some t \<Rightarrow> Inr t
      | None \<Rightarrow>
          Inl \<lparr>Type = ''timestamp'', Value = JString v, Err = ''unknown time format''\<rparr>)"
| "parseTimestamp L (JNumber v) = Inr (time_Unix L (int64_of_float64 L v))"
| "parseTimestamp L val =
     Inl \<lparr>Type = ''timestamp'', Value = val, Err = ''unsupported timestamp type''\<rparr>"

section \<open>logfmt: the flat tokenizer and extractor\<close>

text \<open>
  The local variables of \<open>parseLogfmtPairs\<close>.  The map holds values of type
  \<open>interface{}\<close>; the tokenizer only ever stores strings.
\<close>

record lf_state =
  lf_pairs :: "string \<rightharpoonup> jvalue"
  lf_key :: string
  lf_value :: string
  lf_inQuotes :: bool
  lf_inKey :: bool

definition lf_init :: lf_state where
  "lf_init =
     \<lparr>lf_pairs = Map.empty, lf_key = [], lf_value = [], lf_inQuotes = False,
      lf_inKey = True\<rparr>"

text \<open>
  The conversion \<open>string(ch)\<close> of a byte, which \<open>key += string(ch)\<close> appends: the
  UTF-8 encoding of the code point \<open>ch\<close>, that is the byte itself below 128 and two
  bytes from 128 on.  (The value is built with \<open>WriteByte\<close>, which appends the byte.)
\<close>

definition byteString :: "char \<Rightarrow> string" where
  "byteString ch =
     (if of_char ch < (128::nat) then [ch]
      else [char_of (192 + of_char ch div (64::nat)), char_of (128 + of_char ch mod (64::nat))])"

text \<open>
  One iteration of the loop on the byte \<open>ch\<close>; \<open>prev\<close> is \<open>line[i-1]\<close>, or \<open>None\<close>
  at \<open>i = 0\<close>.  The branches are the cases of the switch, in its order.
\<close>

definition lf_step :: "char option \<Rightarrow> char \<Rightarrow> lf_state \<Rightarrow> lf_state" where
  "lf_step prev ch s =
     (if ch = CHR ''='' \<and> lf_inKey s \<and> \<not> lf_inQuotes s then s\<lparr>lf_inKey := False\<rparr>
      else if ch = dquote \<and> \<not> lf_inKey s then
        (if prev \<noteq> None \<and> prev \<noteq> Some bslash
         then s\<lparr>lf_inQuotes := \<not> lf_inQuotes s\<rparr>
         else s\<lparr>lf_value := lf_value s @ [ch]\<rparr>)
      else if ch = CHR '' '' \<and> \<not> lf_inQuotes s \<and> \<not> lf_inKey s then
        s\<lparr>lf_pairs :=
             (if lf_key s \<noteq> [] then (lf_pairs s)(lf_key s \<mapsto> JString (lf_value s))
              else lf_pairs s),
          lf_key := [], lf_value := [], lf_inKey := True\<rparr>
      else if lf_inKey s then s\<lparr>lf_key := lf_key s @ byteString ch\<rparr>
      else s\<lparr>lf_value := lf_value s @ [ch]\<rparr>)"

fun lf_loop :: "char option \<Rightarrow> string \<Rightarrow> lf_state \<Rightarrow> lf_state" where
  "lf_loop prev [] s = s"
| "lf_loop prev (ch # rest) s = lf_loop (Some ch) rest (lf_step prev ch s)"

text \<open>After the loop (\<open>// Handle last pair\<close>).\<close>

definition lf_finish :: "lf_state \<Rightarrow> (string \<rightharpoonup> jvalue)" where
  "lf_finish s =
     (if lf_key s \<noteq> [] then (lf_pairs s)(lf_key s \<mapsto> JString (lf_value s))
      else lf_pairs s)"

definition parseLogfmtPairs :: "string \<Rightarrow> (string \<rightharpoonup> jvalue)" where
  "parseLogfmtPairs line = lf_finish (lf_loop None line lf_init)"

text \<open>
  The extractors mutate the map and the entry they are given; the model returns both.
\<close>

fun extractLogfmtTimestamp_keys ::
  "go_lib \<Rightarrow> string list \<Rightarrow> (string \<rightharpoonup> jvalue) \<Rightarrow> LogEntry \<Rightarrow> (string \<rightharpoonup> jvalue) \<times> LogEntry"
where
  "extractLogfmtTimestamp_keys L [] pairs entry = (pairs, entry)"
| "extractLogfmtTimestamp_keys L (k # ks) pairs entry =
     (case pairs k of
        None \<Rightarrow> extractLogfmtTimestamp_keys L ks pairs entry
      | Some val \<Rightarrow>
          (case parseTimestamp L val of
             Inr t \<Rightarrow> (pairs(k := None), entry\<lparr>Timestamp := t\<rparr>)
           | Inl e \<Rightarrow> extractLogfmtTimestamp_keys L ks pairs entry))"

definition extractLogfmtTimestamp ::
  "go_lib \<Rightarrow> (string \<rightharpoonup> jvalue) \<Rightarrow> LogEntry \<Rightarrow> (string \<rightharpoonup> jvalue) \<times> LogEntry"
where
  "extractLogfmtTimestamp L pairs entry =
     extractLogfmtTimestamp_keys L [''timestamp'', ''time'', ''ts''] pairs entry"

definition extractLogfmtLevel ::
  "go_lib \<Rightarrow> (string \<rightharpoonup> jvalue) \<Rightarrow> LogEntry \<Rightarrow> (string \<rightharpoonup> jvalue) \<times> LogEntry"
where
  "extractLogfmtLevel L pairs entry =
     (case pairs ''level'' of
        Some (JString s) \<Rightarrow> (pairs(''level'' := None), entry\<lparr>Level := ParseLevel L s\<rparr>)
      | _ \<Rightarrow> (pairs, entry))"

fun extractMessage_keys ::
  "string list \<Rightarrow> (string \<rightharpoonup> jvalue) \<Rightarrow> LogEntry \<Rightarrow> (string \<rightharpoonup> jvalue) \<times> LogEntry"
where
  "extractMessage_keys [] raw entry = (raw, entry)"
| "extractMessage_keys (k # ks) raw entry =
     (case raw k of
        Some (JString s) \<Rightarrow> (raw(k := None), entry\<lparr>Message := s\<rparr>)
      | _ \<Rightarrow> extractMessage_keys ks raw entry)"

definition extractLogfmtMessage ::
  "(string \<rightharpoonup> jvalue) \<Rightarrow> LogEntry \<Rightarrow> (string \<rightharpoonup> jvalue) \<times> LogEntry"
where
  "extractLogfmtMessage pairs entry = extractMessage_keys [''msg'', ''message''] pairs entry"

text \<open>
  \<open>now\<close> is the reading of the clock during this call (the code reads it only when the
  timestamp is still zero).
\<close>

definition parseLogfmtLine :: "go_lib \<Rightarrow> gotime \<Rightarrow> string \<Rightarrow> error + LogEntry" where
  "parseLogfmtLine L now line0 =
     (let line = TrimSpace L line0 in
      if line = [] then Inl ErrEmptyLine
      else
        let entry = \<lparr>Timestamp = zeroTime, Level = ''INFO'', Message = [], Fields = Map.empty\<rparr>;
            pairs = parseLogfmtPairs line;
            (pairs, entry) = extractLogfmtTimestamp L pairs entry;
            (pairs, entry) = extractLogfmtLevel L pairs entry;
            (pairs, entry) = extractLogfmtMessage pairs entry;
            entry = entry\<lparr>Fields := Fields entry ++ pairs\<rparr>;
            entry = (if IsZero (Timestamp entry) then entry\<lparr>Timestamp := now\<rparr> else entry)
        in Inr entry)"

text \<open>
  The loop shared by the three batch parsers: line \<open>i\<close> is extracted with the clock
  reading \<open>time_Now L i\<close>; the first error ends the call and no entries are returned.
\<close>

fun parseBatch ::
  "(gotime \<Rightarrow> string \<Rightarrow> error + LogEntry) \<Rightarrow> go_lib \<Rightarrow> nat \<Rightarrow> string list \<Rightarrow> LogEntry list
     \<Rightarrow> error + LogEntry list"
where
  "parseBatch f L i [] entries = Inr entries"
| "parseBatch f L i (line # lines) entries =
     (case f (time_Now L i) line of
        Inl err \<Rightarrow> Inl err
      | Inr entry \<Rightarrow> parseBatch f L (Suc i) lines (entries @ [entry]))"

definition parseLogfmt :: "go_lib \<Rightarrow> string list \<Rightarrow> error + LogEntry list" where
  "parseLogfmt L lines = parseBatch (parseLogfmtLine L) L 0 lines []"

section \<open>JSON: the structured extractor\<close>

fun extractJSONTimestamp_keys ::
  "go_lib \<Rightarrow> gotime \<Rightarrow> string list \<Rightarrow> (string \<rightharpoonup> jvalue) \<Rightarrow> LogEntry
     \<Rightarrow> (string \<rightharpoonup> jvalue) \<times> LogEntry"
where
  "extractJSONTimestamp_keys L now [] raw entry =
     (raw, if IsZero (Timestamp entry) then entry\<lparr>Timestamp := now\<rparr> else entry)"
| "extractJSONTimestamp_keys L now (k # ks) raw entry =
     (case raw k of
        None \<Rightarrow> extractJSONTimestamp_keys L now ks raw entry
      | Some val \<Rightarrow>
          (case parseTimestamp L val of
             Inr t \<Rightarrow> (raw(k := None), entry\<lparr>Timestamp := t\<rparr>)
           | Inl e \<Rightarrow> extractJSONTimestamp_keys L now ks raw entry))"

definition extractJSONTimestamp ::
  "go_lib \<Rightarrow> gotime \<Rightarrow> (string \<rightharpoonup> jvalue) \<Rightarrow> LogEntry \<Rightarrow> (string \<rightharpoonup> jvalue) \<times> LogEntry"
where
  "extractJSONTimestamp L now raw entry =
     extractJSONTimestamp_keys L now [''timestamp'', ''time'', ''@timestamp'', ''ts''] raw entry"

fun extractJSONLevel_keys ::
  "go_lib \<Rightarrow> string list \<Rightarrow> (string \<rightharpoonup> jvalue) \<Rightarrow> LogEntry \<Rightarrow> (string \<rightharpoonup> jvalue) \<times> LogEntry"
where
  "extractJSONLevel_keys L [] raw entry = (raw, entry\<lparr>Level := LevelInfo\<rparr>)"
| "extractJSONLevel_keys L (k # ks) raw entry =
     (case raw k of
        Some (JString s) \<Rightarrow> (raw(k := None), entry\<lparr>Level := ParseLevel L s\<rparr>)
      | _ \<Rightarrow> extractJSONLevel_keys L ks raw entry)"

definition extractJSONLevel ::
  "go_lib \<Rightarrow> (string \<rightharpoonup> jvalue) \<Rightarrow> LogEntry \<Rightarrow> (string \<rightharpoonup> jvalue) \<times> LogEntry"
where
  "extractJSONLevel L raw entry =
     extractJSONLevel_keys L [''level'', ''severity'', ''log.level''] raw entry"

definition extractJSONMessage ::
  "(string \<rightharpoonup> jvalue) \<Rightarrow> LogEntry \<Rightarrow> (string \<rightharpoonup> jvalue) \<times> LogEntry"
where
  "extractJSONMessage raw entry = extractMessage_keys [''message'', ''msg'', ''log''] raw entry"

definition parseJSONLine :: "go_lib \<Rightarrow> gotime \<Rightarrow> string \<Rightarrow> error + LogEntry" where
  "parseJSONLine L now line0 =
     (let line = TrimSpace L line0 in
      if line = [] then Inl ErrEmptyLine
      else
        (case json_Unmarshal L line of
           Inl err \<Rightarrow> Inl (ErrInvalidJSON err)
         | Inr raw \<Rightarrow>
             let entry = \<lparr>Timestamp = zeroTime, Level = [], Message = [], Fields = Map.empty\<rparr>;
                 (raw, entry) = extractJSONTimestamp L now raw entry;
                 (raw, entry) = extractJSONLevel L raw entry;
                 (raw, entry) = extractJSONMessage raw entry
             in Inr (entry\<lparr>Fields := Fields entry ++ raw\<rparr>)))"

definition parseJSON :: "go_lib \<Rightarrow> string list \<Rightarrow> error + LogEntry list" where
  "parseJSON L lines = parseBatch (parseJSONLine L) L 0 lines []"

section \<open>Free text: the ordered patterns\<close>

record textPattern =
  regex :: "string \<Rightarrow> string list option"
  tsFormat :: string
  tsIndex :: int
  lvlIndex :: int
  msgIndex :: int

text \<open>The table of \<open>initTextPatterns\<close>: pattern, tsFormat, tsIndex, lvlIndex, msgIndex.\<close>

definition patternTable :: "(string \<times> string \<times> int \<times> int \<times> int) list" where
  "patternTable =
     [(re ''^(%w{3}%s+%d{1,2}%s+%d{2}:%d{2}:%d{2})%s+%S+%s+%S+:%s+%[?(%w+)%]?%s+(.*)$'',
       ''Jan 02 15:04:05'', 1, LevelIndex, MessageIndex),
      (re ''^(%d{4}-%d{2}-%d{2}%s+%d{2}:%d{2}:%d{2})%s+%[(%w+)%]%s+(.*)$'',
       ''2006-01-02 15:04:05'', 1, LevelIndex, MessageIndex),
      (re ''^(%d{4}-%d{2}-%d{2}T%d{2}:%d{2}:%d{2}%.%d{3}Z?)%s+%[?(%w+)%]?%s+(.*)$'',
       RFC3339, 1, LevelIndex, MessageIndex),
      (re ''^%[(%w+)%]%s+(.*)$'',
       [], 0, 1, MessageIndexAlt)]"

text \<open>The loop that compiles the table: a pattern that does not compile is skipped.\<close>

fun compilePatterns ::
  "go_lib \<Rightarrow> (string \<times> string \<times> int \<times> int \<times> int) list \<Rightarrow> textPattern list"
where
  "compilePatterns L [] = []"
| "compilePatterns L ((pattern, tsf, tsi, lvli, msgi) # pts) =
     (case regexp_Compile L pattern of
        None \<Rightarrow> compilePatterns L pts
      | Some r \<Rightarrow>
          \<lparr>regex = r, tsFormat = tsf, tsIndex = tsi, lvlIndex = lvli, msgIndex = msgi\<rparr>
            # compilePatterns L pts)"

definition initTextPatterns :: "go_lib \<Rightarrow> textPattern list" where
  "initTextPatterns L = compilePatterns L patternTable"

text \<open>The body of the loop of \<open>parseTextLine\<close> once a pattern has matched.\<close>

definition applyPattern :: "go_lib \<Rightarrow> textPattern \<Rightarrow> string list \<Rightarrow> LogEntry \<Rightarrow> LogEntry" where
  "applyPattern L pattern matches entry0 =
     (let entry =
            (if 0 < tsIndex pattern \<and> tsIndex pattern < int (length matches)
                \<and> tsFormat pattern \<noteq> []
             then (case time_Parse L (tsFormat pattern) (matches ! nat (tsIndex pattern)) of
                     Some t \<Rightarrow> entry0\<lparr>Timestamp := t\<rparr>
                   | None \<Rightarrow> entry0)
             else entry0);
          entry =
            (if 0 < lvlIndex pattern \<and> lvlIndex pattern < int (length matches)
             then entry\<lparr>Level := ParseLevel L (matches ! nat (lvlIndex pattern))\<rparr>
             else entry);
          entry =
            (if 0 < msgIndex pattern \<and> msgIndex pattern < int (length matches)
             then entry\<lparr>Message := matches ! nat (msgIndex pattern)\<rparr>
             else entry)
      in entry)"

text \<open>The loop over the patterns: \<open>continue\<close> on no match, \<open>break\<close> after the first match.\<close>

fun tryPatterns :: "go_lib \<Rightarrow> string \<Rightarrow> textPattern list \<Rightarrow> LogEntry \<Rightarrow> LogEntry" where
  "tryPatterns L line [] entry = entry"
| "tryPatterns L line (pattern # patterns) entry =
     (case regex pattern line of
        None \<Rightarrow> tryPatterns L line patterns entry
      | Some matches \<Rightarrow> applyPattern L pattern matches entry)"

definition parseTextLine ::
  "go_lib \<Rightarrow> gotime \<Rightarrow> string \<Rightarrow> textPattern list \<Rightarrow> error + LogEntry"
where
  "parseTextLine L now line0 patterns =
     (let line = TrimSpace L line0 in
      if line = [] then Inl ErrEmptyLine
      else
        let entry = \<lparr>Timestamp = zeroTime, Level = ''INFO'', Message = line, Fields = Map.empty\<rparr>;
            entry = tryPatterns L line patterns entry;
            entry = (if IsZero (Timestamp entry) then entry\<lparr>Timestamp := now\<rparr> else entry)
        in Inr entry)"

definition parseText :: "go_lib \<Rightarrow> string list \<Rightarrow> error + LogEntry list" where
  "parseText L lines =
     (let patterns = initTextPatterns L
      in parseBatch (\<lambda>now line. parseTextLine L now line patterns) L 0 lines [])"

section \<open>The detector\<close>

definition isJSON :: "go_lib \<Rightarrow> string \<Rightarrow> bool" where
  "isJSON L line0 =
     (let line = TrimSpace L line0 in
      if \<not> HasPrefix line ''{'' \<or> \<not> HasSuffix line ''}'' then False
      else (case json_Unmarshal L line of Inr obj \<Rightarrow> True | Inl err \<Rightarrow> False))"

definition isLogfmt :: "string \<Rightarrow> bool" where
  "isLogfmt line =
     (Contains line ''='' \<and>
      (Contains line ''level='' \<or> Contains line ''msg='' \<or> Contains line ''time='' \<or>
       Contains line ''timestamp=''))"

text \<open>
  The scores: a Go map from \<open>Format\<close> to \<open>int\<close>, where reading an absent key gives 0.
  The counts never exceed 10, and on non-negative integers Go's \<open>/\<close> is \<open>div\<close>.
\<close>

definition scoreSample :: "go_lib \<Rightarrow> string \<Rightarrow> (Format \<Rightarrow> int) \<Rightarrow> (Format \<Rightarrow> int)" where
  "scoreSample L sample scores0 =
     (let scores = (if isJSON L sample then scores0(FormatJSON := scores0 FormatJSON + 1)
                    else scores0);
          scores = (if isLogfmt sample then scores(FormatLogfmt := scores FormatLogfmt + 1)
                    else scores)
      in scores(FormatText := scores FormatText + 1))"

fun scoreSamples :: "go_lib \<Rightarrow> string list \<Rightarrow> (Format \<Rightarrow> int) \<Rightarrow> (Format \<Rightarrow> int)" where
  "scoreSamples L [] scores = scores"
| "scoreSamples L (sample # samples) scores = scoreSamples L samples (scoreSample L sample scores)"

definition detectFormat :: "go_lib \<Rightarrow> string list \<Rightarrow> Format" where
  "detectFormat L samples =
     (if length samples = 0 then FormatText
      else
        let sampleSize = (if length samples < 10 then length samples else 10);
            scores = scoreSamples L (take sampleSize samples) (\<lambda>f. 0)
        in if scores FormatJSON > scores FormatLogfmt
              \<and> scores FormatJSON > scores FormatText div 2 then FormatJSON
           else if scores FormatLogfmt > scores FormatText div 2 then FormatLogfmt
           else FormatText)"

section \<open>The parser\<close>

text \<open>The detector is an empty struct; the parser's state is its format.\<close>

record parser =
  format :: Format

definition New :: parser where
  "New = \<lparr>format = FormatAuto\<rparr>"

definition NewWithFormat :: "Format \<Rightarrow> parser" where
  "NewWithFormat f = \<lparr>format = f\<rparr>"

definition parseLines :: "go_lib \<Rightarrow> parser \<Rightarrow> string list \<Rightarrow> error + LogEntry list" where
  "parseLines L p lines =
     (if length lines = 0 then Inr []
      else
        let fmt = (if format p = FormatAuto then detectFormat L lines else format p)
        in if fmt = FormatAuto then Inl ErrAutoDetect
           else if fmt = FormatJSON then parseJSON L lines
           else if fmt = FormatLogfmt then parseLogfmt L lines
           else if fmt = FormatText then parseText L lines
           else parseText L lines)"

text \<open>The loop of \<open>ParseString\<close> that trims each line and keeps the non-empty ones.\<close>

fun cleanLines :: "go_lib \<Rightarrow> string list \<Rightarrow> string list \<Rightarrow> string list" where
  "cleanLines L [] acc = acc"
| "cleanLines L (line0 # lines) acc =
     (let line = TrimSpace L line0
      in if line \<noteq> [] then cleanLines L lines (acc @ [line]) else cleanLines L lines acc)"

definition ParseString :: "go_lib \<Rightarrow> parser \<Rightarrow> string \<Rightarrow> error + LogEntry list" where
  "ParseString L p s = parseLines L p (cleanLines L (Split s (CHR 0x0A)) [])"

section \<open>Notions used to state the properties\<close>

text \<open>
  The key the tokenizer builds from the bytes \<open>k\<close> it reads as a key: \<open>k\<close> itself
  when \<open>k\<close> is ASCII.
\<close>

definition keyString :: "string \<Rightarrow> string" where
  "keyString k = concat (map byteString k)"

text \<open>
  The content \<open>c\<close> of a properly quoted value, in the tokenizer's own terms: every
  double quote in \<open>c\<close> is immediately preceded by a backslash (so none of them ends the
  quoted state), and \<open>c\<close> does not end with a backslash (so the closing quote does).
  \<open>unescapedQuoteFree p c\<close> reads \<open>c\<close> with \<open>p\<close> the byte before it.
\<close>

fun unescapedQuoteFree :: "char \<Rightarrow> string \<Rightarrow> bool" where
  "unescapedQuoteFree p [] = True"
| "unescapedQuoteFree p (x # xs) = ((x \<noteq> dquote \<or> p = bslash) \<and> unescapedQuoteFree x xs)"

definition properlyQuoted :: "string \<Rightarrow> bool" where
  "properlyQuoted c = (unescapedQuoteFree dquote c \<and> (c = [] \<or> last c \<noteq> bslash))"

text \<open>
  The detector as the specification words it: which sampled lines count towards the
  structured and the flat format, and the decision on the three scores, with half the
  text score taken exactly.
\<close>

definition spec_countsStructured :: "go_lib \<Rightarrow> string \<Rightarrow> bool" where
  "spec_countsStructured L line =
     (let t = TrimSpace L line
      in HasPrefix t ''{'' \<and> HasSuffix t ''}'' \<and> \<not> isl (json_Unmarshal L t))"

definition spec_countsFlat :: "string \<Rightarrow> bool" where
  "spec_countsFlat line =
     (Contains line ''='' \<and>
      list_ex (Contains line) [''level='', ''msg='', ''time='', ''timestamp=''])"

definition spec_detect :: "go_lib \<Rightarrow> string list \<Rightarrow> Format" where
  "spec_detect L lines =
     (let sample = take (min 10 (length lines)) lines;
          structured = real (length (filter (spec_countsStructured L) sample));
          flat = real (length (filter spec_countsFlat sample));
          text = real (length sample)
      in if lines = [] then FormatText
         else if structured > flat \<and> structured > text / 2 then FormatJSON
         else if flat > text / 2 then FormatLogfmt
         else FormatText)"

text \<open>
  The key a lifting consumes, as the specification words it: the first key of the list
  that is present with a value the timestamp parser accepts, and the first key of the list
  that is present with a string value.
\<close>

definition spec_firstParsing ::
  "go_lib \<Rightarrow> (string \<rightharpoonup> jvalue) \<Rightarrow> string list \<Rightarrow> string option"
where
  "spec_firstParsing L raw keys =
     List.find (\<lambda>k. case raw k of Some v \<Rightarrow> \<not> isl (parseTimestamp L v) | None \<Rightarrow> False) keys"

definition spec_firstString :: "(string \<rightharpoonup> jvalue) \<Rightarrow> string list \<Rightarrow> string option" where
  "spec_firstString raw keys =
     List.find (\<lambda>k. case raw k of Some (JString s) \<Rightarrow> True | _ \<Rightarrow> False) keys"

section \<open>A library instance for the examples\<close>

text \<open>
  The examples below run the definitions on lines of the repository's README and tests.
  They need one instance of the library record; \<open>sample_lib\<close> answers as the Go library
  does on these lines, and rejects every other input.  The examples are ASCII, so the two
  Unicode fallbacks are never consulted.
\<close>

definition sample_json_line :: string where
  \<open>sample_json_line =
     ''{"timestamp":"2024-01-02T15:04:05Z","level":"ERROR","message":"Database connection failed","service":"api"}''\<close>

definition sample_raw :: "string \<rightharpoonup> jvalue" where
  "sample_raw =
     [''timestamp'' \<mapsto> JString ''2024-01-02T15:04:05Z'',
      ''level'' \<mapsto> JString ''ERROR'',
      ''message'' \<mapsto> JString ''Database connection failed'',
      ''service'' \<mapsto> JString ''api'']"

definition sample_text_line :: string where
  "sample_text_line = ''2024-01-02 15:04:05 [ERROR] Failed to connect to database''"

definition sample_instant :: gotime where
  "sample_instant = Time 63839804645 0"

definition sample_Unmarshal :: "string \<Rightarrow> string + (string \<rightharpoonup> jvalue)" where
  "sample_Unmarshal s =
     (if s = sample_json_line then Inr sample_raw else Inl ''invalid character'')"

definition sample_Parse :: "string \<Rightarrow> string \<Rightarrow> gotime option" where
  "sample_Parse layout s =
     (if layout = RFC3339 \<and> s = ''2024-01-02T15:04:05Z'' then Some sample_instant
      else if layout = ''2006-01-02 15:04:05'' \<and> s = ''2024-01-02 15:04:05''
      then Some sample_instant
      else None)"

definition sample_Compile :: "string \<Rightarrow> (string \<Rightarrow> string list option) option" where
  "sample_Compile pattern =
     (if pattern = fst (patternTable ! 1) then
        Some (\<lambda>s. if s = sample_text_line
                   then Some [s, ''2024-01-02 15:04:05'', ''ERROR'', ''Failed to connect to database'']
                   else None)
      else if pattern = fst (patternTable ! 3) then
        Some (\<lambda>s. if s = ''[INFO] Starting application''
                   then Some [s, ''INFO'', ''Starting application'']
                   else None)
      else Some (\<lambda>s. None))"

definition sample_lib :: go_lib where
  "sample_lib =
     \<lparr>ToUpperUnicode = (\<lambda>s. s),
      TrimSpaceUnicode = (\<lambda>s. s),
      Int64OutOfRange = (\<lambda>v. - (2 ^ 63)),
      time_Parse = sample_Parse,
      time_Unix = (\<lambda>s. Time (s + 62135596800) 0),
      time_Now = (\<lambda>i. Time 63900000000 (int i)),
      json_Unmarshal = sample_Unmarshal,
      regexp_Compile = sample_Compile\<rparr>"

section \<open>Evaluation on concrete strings\<close>

lemmas string_eval =
  TrimSpace_def ToUpper_def isASCII_def asciiSpace_def asciiUpper_def char_of_def
  bit_Suc_0_iff HasPrefix_def HasSuffix_def dquote_def bslash_def

lemmas sample_eval =
  sample_lib_def sample_Unmarshal_def sample_Parse_def sample_Compile_def
  sample_json_line_def sample_raw_def sample_text_line_def sample_instant_def

lemmas format_eval =
  FormatAuto_def FormatJSON_def FormatLogfmt_def FormatText_def NewWithFormat_def New_def

lemma Format_distinct:
  "FormatJSON \<noteq> FormatLogfmt" "FormatJSON \<noteq> FormatText" "FormatLogfmt \<noteq> FormatText"
  "FormatLogfmt \<noteq> FormatJSON" "FormatText \<noteq> FormatJSON" "FormatText \<noteq> FormatLogfmt"
  "FormatAuto \<noteq> FormatJSON" "FormatAuto \<noteq> FormatLogfmt" "FormatAuto \<noteq> FormatText"
  "FormatJSON \<noteq> FormatAuto" "FormatLogfmt \<noteq> FormatAuto" "FormatText \<noteq> FormatAuto"
  by (simp_all add: format_eval)

section \<open>The level normalizer\<close>

text \<open>
  Claim C8.  For every input string, \<open>ParseLevel\<close> uppercases it and maps DBG to DEBUG,
  INF to INFO, WRN and WARNING to WARN, ERR to ERROR, FTL to FATAL, each canonical name
  to itself and every other string, the empty one included, to INFO.  It is a total
  function into the five canonical names.  Lower and mixed case spellings are accepted:
  on ASCII input the uppercasing is computed, whatever the library instance.
\<close>

theorem ParseLevel_normalizes:
  "ParseLevel L s =
     (if ToUpper L s \<in> {''DEBUG'', ''DBG''} then ''DEBUG''
      else if ToUpper L s \<in> {''INFO'', ''INF''} then ''INFO''
      else if ToUpper L s \<in> {''WARN'', ''WARNING'', ''WRN''} then ''WARN''
      else if ToUpper L s \<in> {''ERROR'', ''ERR''} then ''ERROR''
      else if ToUpper L s \<in> {''FATAL'', ''FTL''} then ''FATAL''
      else ''INFO'')
   \<and> ParseLevel L s \<in> {''DEBUG'', ''INFO'', ''WARN'', ''ERROR'', ''FATAL''}
   \<and> ParseLevel L [] = ''INFO''
   \<and> ParseLevel L ''dbg'' = ''DEBUG''
   \<and> ParseLevel L ''Warning'' = ''WARN''
   \<and> ParseLevel L ''trace'' = ''INFO''"
proof -
  have table: "ParseLevel L s =
     (if ToUpper L s \<in> {''DEBUG'', ''DBG''} then ''DEBUG''
      else if ToUpper L s \<in> {''INFO'', ''INF''} then ''INFO''
      else if ToUpper L s \<in> {''WARN'', ''WARNING'', ''WRN''} then ''WARN''
      else if ToUpper L s \<in> {''ERROR'', ''ERR''} then ''ERROR''
      else if ToUpper L s \<in> {''FATAL'', ''FTL''} then ''FATAL''
      else ''INFO'')"
    by (simp add: ParseLevel_def LevelInfo_def Let_def)
  have range: "ParseLevel L s \<in> {''DEBUG'', ''INFO'', ''WARN'', ''ERROR'', ''FATAL''}"
    by (simp add: ParseLevel_def Let_def)
  have empty: "ParseLevel L [] = ''INFO''"
    by (simp add: ParseLevel_def ToUpper_def LevelInfo_def)
  have dbg: "ParseLevel L ''dbg'' = ''DEBUG''"
    by (simp add: ParseLevel_def LevelInfo_def string_eval)
  have warning: "ParseLevel L ''Warning'' = ''WARN''"
    by (simp add: ParseLevel_def LevelInfo_def string_eval)
  have trace: "ParseLevel L ''trace'' = ''INFO''"
    by (simp add: ParseLevel_def LevelInfo_def string_eval)
  from table range empty dbg warning trace show ?thesis by blast
qed

section \<open>The timestamp parser\<close>

lemma int64_of_float64_in_range:
  assumes "- (2 ^ 63) \<le> x" and "x < 2 ^ 63"
  shows "int64_of_float64 L x = (if 0 \<le> x then \<lfloor>x\<rfloor> else \<lceil>x\<rceil>)"
proof (cases "0 \<le> x")
  case True
  have "\<lfloor>x\<rfloor> < 2 ^ 63"
    using assms(2) by (simp add: floor_less_iff)
  moreover have "- (2 ^ 63) \<le> \<lfloor>x\<rfloor>"
    using True by (simp add: le_floor_iff)
  ultimately show ?thesis
    using True by (simp add: int64_of_float64_def Let_def)
next
  case False
  have "\<lceil>x\<rceil> \<le> 0"
    using False by (simp add: ceiling_le_iff)
  then have "\<lceil>x\<rceil> < 2 ^ 63"
    by simp
  moreover have "- (2 ^ 63) \<le> \<lceil>x\<rceil>"
    using assms(1) by (simp add: le_ceiling_iff)
  ultimately show ?thesis
    using False by (simp add: int64_of_float64_def Let_def)
qed

text \<open>
  Claim C6.  On a string, \<open>parseTimestamp\<close> tries the layouts RFC3339, RFC3339 with
  nanoseconds, the millisecond form ending in Z, the date and time separated by a space,
  and the syslog form without a year, in this order; the first layout that parses gives
  the result, and when none parses the result is the error that carries the string.  On
  a number the result is never an error: it is the Unix time of the number converted to
  a 64-bit integer, which for a number in the range of int64 is the number without its
  fraction.  On a value of any other type the result is the error that carries the value.
\<close>

theorem parseTimestamp_cases:
  "parseTimestamp L (JString v) =
     (case time_Parse L ''2006-01-02T15:04:05Z07:00'' v of Some t \<Rightarrow> Inr t | None \<Rightarrow>
      case time_Parse L ''2006-01-02T15:04:05.999999999Z07:00'' v of Some t \<Rightarrow> Inr t | None \<Rightarrow>
      case time_Parse L ''2006-01-02T15:04:05.000Z'' v of Some t \<Rightarrow> Inr t | None \<Rightarrow>
      case time_Parse L ''2006-01-02 15:04:05'' v of Some t \<Rightarrow> Inr t | None \<Rightarrow>
      case time_Parse L ''Jan 02 15:04:05'' v of Some t \<Rightarrow> Inr t | None \<Rightarrow>
        Inl \<lparr>Type = ''timestamp'', Value = JString v, Err = ''unknown time format''\<rparr>)
   \<and> parseTimestamp L (JNumber x) = Inr (time_Unix L (int64_of_float64 L x))
   \<and> (- (2 ^ 63) \<le> x \<and> x < 2 ^ 63 \<longrightarrow>
        parseTimestamp L (JNumber x) = Inr (time_Unix L (if 0 \<le> x then \<lfloor>x\<rfloor> else \<lceil>x\<rceil>)))
   \<and> parseTimestamp L (JBool b) =
        Inl \<lparr>Type = ''timestamp'', Value = JBool b, Err = ''unsupported timestamp type''\<rparr>
   \<and> parseTimestamp L JNull =
        Inl \<lparr>Type = ''timestamp'', Value = JNull, Err = ''unsupported timestamp type''\<rparr>
   \<and> parseTimestamp L (JObject kvs) =
        Inl \<lparr>Type = ''timestamp'', Value = JObject kvs, Err = ''unsupported timestamp type''\<rparr>
   \<and> parseTimestamp L (JArray vs) =
        Inl \<lparr>Type = ''timestamp'', Value = JArray vs, Err = ''unsupported timestamp type''\<rparr>"
proof -
  have str: "parseTimestamp L (JString v) =
     (case time_Parse L ''2006-01-02T15:04:05Z07:00'' v of Some t \<Rightarrow> Inr t | None \<Rightarrow>
      case time_Parse L ''2006-01-02T15:04:05.999999999Z07:00'' v of Some t \<Rightarrow> Inr t | None \<Rightarrow>
      case time_Parse L ''2006-01-02T15:04:05.000Z'' v of Some t \<Rightarrow> Inr t | None \<Rightarrow>
      case time_Parse L ''2006-01-02 15:04:05'' v of Some t \<Rightarrow> Inr t | None \<Rightarrow>
      case time_Parse L ''Jan 02 15:04:05'' v of Some t \<Rightarrow> Inr t | None \<Rightarrow>
        Inl \<lparr>Type = ''timestamp'', Value = JString v, Err = ''unknown time format''\<rparr>)"
    by (simp add: timestampFormats_def RFC3339_def RFC3339Nano_def split: option.splits)
  have num: "parseTimestamp L (JNumber x) = Inr (time_Unix L (int64_of_float64 L x))"
    by simp
  have whole: "- (2 ^ 63) \<le> x \<and> x < 2 ^ 63 \<longrightarrow>
        parseTimestamp L (JNumber x) = Inr (time_Unix L (if 0 \<le> x then \<lfloor>x\<rfloor> else \<lceil>x\<rceil>))"
    using int64_of_float64_in_range [of x L] by simp
  from str num whole show ?thesis by simp
qed

theorem parseTimestamp_cases_witness:
  "- (2 ^ 63) \<le> (3408415691 / 2 :: real) \<and> (3408415691 / 2 :: real) < 2 ^ 63
   \<and> (\<forall>L. parseTimestamp L (JNumber (3408415691 / 2)) = Inr (time_Unix L 1704207845))
   \<and> parseTimestamp sample_lib (JString ''2024-01-02T15:04:05Z'') = Inr sample_instant
   \<and> parseTimestamp sample_lib (JString ''yesterday'') =
        Inl \<lparr>Type = ''timestamp'', Value = JString ''yesterday'', Err = ''unknown time format''\<rparr>"
proof -
  have range: "- (2 ^ 63) \<le> (3408415691 / 2 :: real) \<and> (3408415691 / 2 :: real) < 2 ^ 63"
    by simp
  have num: "parseTimestamp L (JNumber (3408415691 / 2)) = Inr (time_Unix L 1704207845)" for L
    using parseTimestamp_cases [of L _ "3408415691 / 2"] range by simp
  have ok: "parseTimestamp sample_lib (JString ''2024-01-02T15:04:05Z'') = Inr sample_instant"
    using parseTimestamp_cases [of sample_lib "''2024-01-02T15:04:05Z''"]
    by (simp add: sample_eval RFC3339_def)
  have bad: "parseTimestamp sample_lib (JString ''yesterday'') =
        Inl \<lparr>Type = ''timestamp'', Value = JString ''yesterday'', Err = ''unknown time format''\<rparr>"
    using parseTimestamp_cases [of sample_lib "''yesterday''"]
    by (simp add: sample_eval RFC3339_def)
  from range num ok bad show ?thesis by blast
qed

section \<open>The flat tokenizer\<close>

lemma lf_loop_append:
  "lf_loop prev (xs @ ys) s =
     lf_loop (if xs = [] then prev else Some (last xs)) ys (lf_loop prev xs s)"
  by (induction xs arbitrary: prev s) auto

text \<open>While reading a key, every byte but \<open>=\<close> is converted and appended to the key.\<close>

lemma byteString_not_Nil: "byteString ch \<noteq> []"
  by (simp add: byteString_def)

lemma keyString_ascii: "list_all isASCII k \<Longrightarrow> keyString k = k"
  by (induction k) (simp_all add: keyString_def byteString_def isASCII_def)

lemma keyString_Nil_iff: "(keyString k = []) = (k = [])"
  by (cases k) (simp_all add: keyString_def byteString_not_Nil)

lemma lf_loop_key:
  "lf_inKey s \<Longrightarrow> CHR ''='' \<notin> set k \<Longrightarrow>
     lf_loop prev k s = s\<lparr>lf_key := lf_key s @ keyString k\<rparr>"
proof (induction k arbitrary: prev s)
  case Nil
  then show ?case by (simp add: keyString_def)
next
  case (Cons ch k)
  have step: "lf_step prev ch s = s\<lparr>lf_key := lf_key s @ byteString ch\<rparr>"
    using Cons.prems by (auto simp add: lf_step_def)
  show ?case
    using Cons.IH [of "s\<lparr>lf_key := lf_key s @ byteString ch\<rparr>" "Some ch"] Cons.prems
    by (simp add: step keyString_def)
qed

text \<open>Inside quotes, a content without unescaped quote is appended to the value.\<close>

lemma lf_loop_quoted:
  "\<not> lf_inKey s \<Longrightarrow> lf_inQuotes s \<Longrightarrow> unescapedQuoteFree p c \<Longrightarrow>
     lf_loop (Some p) c s = s\<lparr>lf_value := lf_value s @ c\<rparr>"
proof (induction c arbitrary: p s)
  case Nil
  then show ?case by simp
next
  case (Cons ch c)
  have step: "lf_step (Some p) ch s = s\<lparr>lf_value := lf_value s @ [ch]\<rparr>"
    using Cons.prems by (auto simp add: lf_step_def)
  show ?case
    using Cons.IH [of "s\<lparr>lf_value := lf_value s @ [ch]\<rparr>" ch] Cons.prems
    by (simp add: step)
qed

lemma lf_loop_quoted_pair:
  assumes "properlyQuoted c" and "CHR ''='' \<notin> set k"
    and "lf_key s = []" and "lf_value s = []" and "lf_inKey s" and "\<not> lf_inQuotes s"
  shows "lf_loop prev (k @ CHR ''='' # dquote # c @ [dquote]) s =
           s\<lparr>lf_key := keyString k, lf_value := c, lf_inKey := False\<rparr>"
proof -
  let ?s1 = "s\<lparr>lf_key := keyString k\<rparr>"
  let ?s2 = "s\<lparr>lf_key := keyString k, lf_inKey := False\<rparr>"
  let ?s3 = "s\<lparr>lf_key := keyString k, lf_inQuotes := True, lf_inKey := False\<rparr>"
  let ?s4 = "s\<lparr>lf_key := keyString k, lf_value := c, lf_inQuotes := True, lf_inKey := False\<rparr>"
  have k: "lf_loop prev k s = ?s1"
    using assms by (simp add: lf_loop_key)
  have eq: "lf_step p (CHR ''='') ?s1 = ?s2" for p
    using assms by (simp add: lf_step_def)
  have oq: "lf_step (Some (CHR ''='')) dquote ?s2 = ?s3"
    using assms by (simp add: lf_step_def dquote_def bslash_def)
  have body: "lf_loop (Some dquote) c ?s3 = ?s4"
    using assms lf_loop_quoted [of ?s3 dquote c] by (simp add: properlyQuoted_def)
  have lastc: "(if c = [] then dquote else last c) \<noteq> bslash"
    using assms by (auto simp add: properlyQuoted_def dquote_def bslash_def)
  have cq: "lf_step (Some (if c = [] then dquote else last c)) dquote ?s4 =
              s\<lparr>lf_key := keyString k, lf_value := c, lf_inKey := False\<rparr>"
    using lastc assms by (simp add: lf_step_def dquote_def)
  have "lf_loop prev (k @ CHR ''='' # dquote # c @ [dquote]) s =
          lf_loop (Some dquote) (c @ [dquote]) ?s3"
    by (simp add: lf_loop_append [of prev k] k eq oq)
  also have "\<dots> = lf_step (Some (if c = [] then dquote else last c)) dquote ?s4"
    by (simp add: lf_loop_append [of _ c] body)
  finally show ?thesis by (simp add: cq)
qed

text \<open>While a key is being read the value is empty.\<close>

lemma lf_step_key_value:
  "(lf_inKey s \<longrightarrow> lf_value s = []) \<Longrightarrow>
     (lf_inKey (lf_step prev ch s) \<longrightarrow> lf_value (lf_step prev ch s) = [])"
  by (simp add: lf_step_def)

lemma lf_loop_key_value:
  "(lf_inKey s \<longrightarrow> lf_value s = []) \<Longrightarrow>
     (lf_inKey (lf_loop prev xs s) \<longrightarrow> lf_value (lf_loop prev xs s) = [])"
proof (induction xs arbitrary: prev s)
  case Nil
  then show ?case by simp
next
  case (Cons ch xs)
  show ?case
    using Cons.IH [OF lf_step_key_value [OF Cons.prems, where prev = prev and ch = ch],
        where prev = "Some ch"]
    by simp
qed

text \<open>
  Claim C3, as the code has it.  The claim says that a pending key for which no \<open>=\<close>
  was consumed is dropped at the end of the line.  The code emits it: after the loop,
  every non-empty pending key is stored with the value accumulated so far, and that
  value is empty when no \<open>=\<close> was consumed.  The line \<open>foo\<close> yields the pair of
  \<open>foo\<close> and the empty string.
\<close>

theorem bare_key_is_emitted:
  "CHR ''='' \<notin> set ''foo'' \<and> parseLogfmtPairs ''foo'' ''foo'' = Some (JString [])"
  by (simp add: parseLogfmtPairs_def lf_finish_def lf_init_def lf_step_def byteString_def dquote_def)

text \<open>
  Claim C3, amended.  At the end of the line every pending non-empty key is stored with
  the value accumulated so far, and only an empty pending key is dropped.  When the
  tokenizer is still reading that key, no \<open>=\<close> having been consumed for it, the value
  is the empty string: if the tokenizer reads a key after the part \<open>pre\<close> of the line and
  the rest \<open>k\<close> has no \<open>=\<close>, the pending key extended by \<open>k\<close> (byte by byte as
  \<open>string(ch)\<close> converts it, so unchanged for ASCII) is stored with the empty value
  beside the pairs of \<open>pre\<close>.  So \<open>a=1 b\<close> yields \<open>a\<close> with \<open>1\<close> and \<open>b\<close> with the
  empty string, and a non-empty line without any \<open>=\<close> yields the whole line as the one
  key.  Before the end of the line no pair is stored while a key is being read.
\<close>

theorem pending_key_emitted:
  assumes "CHR ''='' \<notin> set k" and "s = lf_loop None pre lf_init" and "lf_inKey s"
  shows "parseLogfmtPairs (pre @ k) =
           (if lf_key s @ keyString k = [] then lf_pairs s
            else (lf_pairs s)(lf_key s @ keyString k \<mapsto> JString []))
       \<and> parseLogfmtPairs k = (if k = [] then Map.empty else [keyString k \<mapsto> JString []])
       \<and> parseLogfmtPairs line =
           (let t = lf_loop None line lf_init
            in if lf_key t = [] then lf_pairs t
               else (lf_pairs t)(lf_key t \<mapsto> JString (lf_value t)))
       \<and> (list_all isASCII k \<longrightarrow> keyString k = k)
       \<and> (lf_inKey t \<longrightarrow> lf_pairs (lf_step prev ch t) = lf_pairs t)"
proof -
  have v: "lf_value s = []"
    using lf_loop_key_value [of lf_init None pre] assms(2,3) by (simp add: lf_init_def)
  have "lf_loop None (pre @ k) lf_init =
          lf_loop (if pre = [] then None else Some (last pre)) k s"
    unfolding assms(2) by (rule lf_loop_append)
  also have "\<dots> = s\<lparr>lf_key := lf_key s @ keyString k\<rparr>"
    using assms(1,3) by (rule lf_loop_key [rotated])
  finally have a: "parseLogfmtPairs (pre @ k) =
           (if lf_key s @ keyString k = [] then lf_pairs s
            else (lf_pairs s)(lf_key s @ keyString k \<mapsto> JString []))"
    by (simp add: parseLogfmtPairs_def lf_finish_def v)
  have b: "parseLogfmtPairs k = (if k = [] then Map.empty else [keyString k \<mapsto> JString []])"
    using assms(1)
    by (simp add: parseLogfmtPairs_def lf_loop_key lf_init_def lf_finish_def keyString_Nil_iff)
  have c: "parseLogfmtPairs line =
           (let t = lf_loop None line lf_init
            in if lf_key t = [] then lf_pairs t
               else (lf_pairs t)(lf_key t \<mapsto> JString (lf_value t)))"
    by (simp add: parseLogfmtPairs_def lf_finish_def Let_def)
  have d: "list_all isASCII k \<longrightarrow> keyString k = k"
    by (simp add: keyString_ascii)
  have e: "lf_inKey t \<longrightarrow> lf_pairs (lf_step prev ch t) = lf_pairs t"
    by (simp add: lf_step_def)
  from a b c d e show ?thesis by (intro conjI)
qed

theorem pending_key_emitted_witness:
  "CHR ''='' \<notin> set ''b''
   \<and> lf_inKey (lf_loop None ''a=1 '' lf_init)
   \<and> parseLogfmtPairs ''a=1 b'' = [''a'' \<mapsto> JString ''1'', ''b'' \<mapsto> JString []]
   \<and> parseLogfmtPairs ''user logged in'' = [''user logged in'' \<mapsto> JString []]
   \<and> parseLogfmtPairs ''a=1'' = [''a'' \<mapsto> JString ''1'']"
proof -
  have st: "lf_loop None ''a=1 '' lf_init = lf_init\<lparr>lf_pairs := [''a'' \<mapsto> JString ''1'']\<rparr>"
    by (simp add: lf_init_def lf_step_def byteString_def dquote_def)
  have noeq: "CHR ''='' \<notin> set ''b''"
    by simp
  have inkey: "lf_inKey (lf_loop None ''a=1 '' lf_init)"
    unfolding st by (simp add: lf_init_def)
  have kb: "keyString ''b'' = ''b''"
    using pending_key_emitted [OF noeq refl inkey, THEN conjunct2, THEN conjunct2,
        THEN conjunct2, THEN conjunct1]
    by (simp add: isASCII_def)
  have one: "parseLogfmtPairs (''a=1 '' @ ''b'') = [''a'' \<mapsto> JString ''1'', ''b'' \<mapsto> JString []]"
    using pending_key_emitted [OF noeq refl inkey, THEN conjunct1]
    unfolding kb st by (simp add: lf_init_def)
  have noeq2: "CHR ''='' \<notin> set ''user logged in''"
    by simp
  have ku: "keyString ''user logged in'' = ''user logged in''"
    by (simp add: keyString_ascii isASCII_def)
  have two: "parseLogfmtPairs ''user logged in'' = [''user logged in'' \<mapsto> JString []]"
    using pending_key_emitted [OF noeq2 refl inkey, THEN conjunct2, THEN conjunct1]
    unfolding ku by simp
  have st3: "lf_loop None ''a=1'' lf_init =
      lf_init\<lparr>lf_key := ''a'', lf_value := ''1'', lf_inKey := False\<rparr>"
    by (simp add: lf_init_def lf_step_def byteString_def dquote_def)
  have three: "parseLogfmtPairs ''a=1'' = [''a'' \<mapsto> JString ''1'']"
    using pending_key_emitted [OF noeq refl inkey, THEN conjunct2, THEN conjunct2,
        THEN conjunct1, of "''a=1''"]
    unfolding st3 Let_def by (simp add: lf_init_def)
  from noeq inkey one two three show ?thesis by simp
qed

text \<open>
  Claim C7.  Wherever a pair starts in a line (empty key and value, reading a key, not
  in quotes), the bytes \<open>k\<close> of a key, without \<open>=\<close>, followed by \<open>=\<close> and a properly
  quoted content \<open>c\<close> yield the pair of the key and exactly \<open>c\<close>, spaces and escaped
  quotes included: at the end of the line, and before a space that separates it from the
  rest of the line.  The value is built byte by byte and is never converted; the key is
  \<open>k\<close> itself when \<open>k\<close> is ASCII.  The tokenizer has no error result.
\<close>

theorem quoted_value_roundtrip:
  assumes "properlyQuoted c" and "k \<noteq> []" and "CHR ''='' \<notin> set k"
    and "lf_key s = []" and "lf_value s = []" and "lf_inKey s" and "\<not> lf_inQuotes s"
  shows "lf_finish (lf_loop prev (k @ CHR ''='' # dquote # c @ [dquote]) s) =
           (lf_pairs s)(keyString k \<mapsto> JString c)
       \<and> lf_loop prev (k @ CHR ''='' # dquote # c @ dquote # CHR '' '' # rest) s =
           lf_loop (Some (CHR '' '')) rest
             (s\<lparr>lf_pairs := (lf_pairs s)(keyString k \<mapsto> JString c)\<rparr>)
       \<and> parseLogfmtPairs (k @ CHR ''='' # dquote # c @ [dquote]) = [keyString k \<mapsto> JString c]
       \<and> (list_all isASCII k \<longrightarrow> keyString k = k)"
proof -
  have kne: "keyString k \<noteq> []"
    using assms(2) by (simp add: keyString_Nil_iff)
  have pair: "lf_loop p (k @ CHR ''='' # dquote # c @ [dquote]) t =
           t\<lparr>lf_key := keyString k, lf_value := c, lf_inKey := False\<rparr>"
    if "lf_key t = []" "lf_value t = []" "lf_inKey t" "\<not> lf_inQuotes t" for p t
    using lf_loop_quoted_pair [OF assms(1) assms(3) that] .
  have a: "lf_finish (lf_loop prev (k @ CHR ''='' # dquote # c @ [dquote]) s) =
           (lf_pairs s)(keyString k \<mapsto> JString c)"
    using assms kne by (simp add: pair lf_finish_def)
  have "lf_loop prev ((k @ CHR ''='' # dquote # c @ [dquote]) @ CHR '' '' # rest) s =
          lf_loop (Some dquote) (CHR '' '' # rest)
            (lf_loop prev (k @ CHR ''='' # dquote # c @ [dquote]) s)"
    using lf_loop_append [of prev "k @ CHR ''='' # dquote # c @ [dquote]" "CHR '' '' # rest" s]
    by simp
  also have "\<dots> = lf_loop (Some (CHR '' '')) rest
            (lf_step (Some dquote) (CHR '' '')
               (s\<lparr>lf_key := keyString k, lf_value := c, lf_inKey := False\<rparr>))"
    using assms by (simp add: pair)
  also have "lf_step (Some dquote) (CHR '' '')
               (s\<lparr>lf_key := keyString k, lf_value := c, lf_inKey := False\<rparr>) =
        s\<lparr>lf_pairs := (lf_pairs s)(keyString k \<mapsto> JString c)\<rparr>"
    using assms kne by (simp add: lf_step_def dquote_def)
  finally have b: "lf_loop prev (k @ CHR ''='' # dquote # c @ dquote # CHR '' '' # rest) s =
           lf_loop (Some (CHR '' '')) rest
             (s\<lparr>lf_pairs := (lf_pairs s)(keyString k \<mapsto> JString c)\<rparr>)"
    by simp
  have c: "parseLogfmtPairs (k @ CHR ''='' # dquote # c @ [dquote]) = [keyString k \<mapsto> JString c]"
    using kne by (simp add: parseLogfmtPairs_def pair lf_init_def lf_finish_def)
  have d: "list_all isASCII k \<longrightarrow> keyString k = k"
    by (simp add: keyString_ascii)
  from a b c d show ?thesis by blast
qed

theorem quoted_value_roundtrip_witness:
  \<open>properlyQuoted (''Connection '' @ [bslash, dquote] @ ''db'' @ [bslash, dquote] @ '' timeout'')
   \<and> parseLogfmtPairs (''msg="Connection '' @ [bslash, dquote] @ ''db'' @ [bslash, dquote] @ '' timeout"'') =
       [''msg'' \<mapsto> JString (''Connection '' @ [bslash, dquote] @ ''db'' @ [bslash, dquote] @ '' timeout'')]
   \<and> lf_loop None ''msg="Connection timeout" service=worker'' lf_init =
       lf_loop (Some (CHR '' '')) ''service=worker''
         (lf_init\<lparr>lf_pairs := [''msg'' \<mapsto> JString ''Connection timeout'']\<rparr>)\<close>
proof -
  let ?c = "''Connection '' @ [bslash, dquote] @ ''db'' @ [bslash, dquote] @ '' timeout''"
  have pq: "properlyQuoted ?c"
    by (simp add: properlyQuoted_def dquote_def bslash_def)
  have pq2: "properlyQuoted ''Connection timeout''"
    by (simp add: properlyQuoted_def dquote_def bslash_def)
  have k: "''msg'' \<noteq> []" "CHR ''='' \<notin> set ''msg''"
    by simp_all
  have ka: "list_all isASCII ''msg''"
    by (simp add: isASCII_def)
  have s: "lf_key lf_init = []" "lf_value lf_init = []" "lf_inKey lf_init" "\<not> lf_inQuotes lf_init"
    by (simp_all add: lf_init_def)
  have key: "keyString ''msg'' = ''msg''"
    using quoted_value_roundtrip [OF pq k s, THEN conjunct2, THEN conjunct2, THEN conjunct2] ka
    by blast
  have one: "parseLogfmtPairs (''msg'' @ CHR ''='' # dquote # ?c @ [dquote]) = [''msg'' \<mapsto> JString ?c]"
    using quoted_value_roundtrip [OF pq k s, THEN conjunct2, THEN conjunct2, THEN conjunct1]
    unfolding key .
  have two: "lf_loop None (''msg'' @ CHR ''='' # dquote # ''Connection timeout'' @ dquote # CHR '' '' # ''service=worker'') lf_init =
      lf_loop (Some (CHR '' '')) ''service=worker''
        (lf_init\<lparr>lf_pairs := (lf_pairs lf_init)(''msg'' \<mapsto> JString ''Connection timeout'')\<rparr>)"
    using quoted_value_roundtrip [OF pq2 k s, THEN conjunct2, THEN conjunct1]
    unfolding key .
  have l1: \<open>''msg="Connection '' @ [bslash, dquote] @ ''db'' @ [bslash, dquote] @ '' timeout"'' =
      ''msg'' @ CHR ''='' # dquote # ?c @ [dquote]\<close>
    by (simp add: dquote_def)
  have l2: \<open>''msg="Connection timeout" service=worker'' =
      ''msg'' @ CHR ''='' # dquote # ''Connection timeout'' @ dquote # CHR '' '' # ''service=worker''\<close>
    by (simp add: dquote_def)
  have p0: "lf_pairs lf_init = Map.empty"
    by (simp add: lf_init_def)
  show ?thesis
    unfolding l1 l2 using pq one two unfolding p0 by (intro conjI)
qed

text \<open>
  Claim C10.  While a value is being read, a backslash followed by a double quote is
  appended to the value as these two bytes and leaves the state of the tokenizer as it
  was: inside quotes the escaped quote does not end the quoted state, and nothing is
  unescaped.  The value of \<open>msg="a \"b\""\<close> is \<open>a \"b\"\<close>, backslashes included.
\<close>

theorem escaped_quote_kept:
  assumes "\<not> lf_inKey s"
  shows "lf_loop prev (bslash # dquote # rest) s =
           lf_loop (Some dquote) rest (s\<lparr>lf_value := lf_value s @ [bslash, dquote]\<rparr>)
       \<and> parseLogfmtPairs
           (''msg='' @ [dquote] @ ''a '' @ [bslash, dquote] @ ''b'' @ [bslash, dquote] @ [dquote]) =
           [''msg'' \<mapsto> JString (''a '' @ [bslash, dquote] @ ''b'' @ [bslash, dquote])]"
proof -
  have two: "lf_loop prev (bslash # dquote # rest) s =
           lf_loop (Some dquote) rest (s\<lparr>lf_value := lf_value s @ [bslash, dquote]\<rparr>)"
    using assms by (simp add: lf_step_def dquote_def bslash_def)
  have example: "parseLogfmtPairs
           (''msg='' @ [dquote] @ ''a '' @ [bslash, dquote] @ ''b'' @ [bslash, dquote] @ [dquote]) =
           [''msg'' \<mapsto> JString (''a '' @ [bslash, dquote] @ ''b'' @ [bslash, dquote])]"
    by (simp add: parseLogfmtPairs_def lf_finish_def lf_init_def lf_step_def byteString_def
        dquote_def bslash_def)
  from two example show ?thesis by simp
qed

theorem escaped_quote_kept_witness:
  "\<not> lf_inKey (lf_init\<lparr>lf_key := ''msg'', lf_value := ''a '', lf_inQuotes := True, lf_inKey := False\<rparr>)
   \<and> lf_loop (Some (CHR '' '')) [bslash, dquote, CHR ''b'']
       (lf_init\<lparr>lf_key := ''msg'', lf_value := ''a '', lf_inQuotes := True, lf_inKey := False\<rparr>) =
     lf_init\<lparr>lf_key := ''msg'', lf_value := ''a '' @ [bslash, dquote, CHR ''b''],
       lf_inQuotes := True, lf_inKey := False\<rparr>"
proof -
  let ?s = "lf_init\<lparr>lf_key := ''msg'', lf_value := ''a '', lf_inQuotes := True, lf_inKey := False\<rparr>"
  have h: "\<not> lf_inKey ?s"
    by simp
  show ?thesis
    using escaped_quote_kept [OF h, of "Some (CHR '' '')" "[CHR ''b'']"] h
    by (simp add: lf_step_def lf_init_def dquote_def bslash_def)
qed

section \<open>The detector\<close>

lemma isJSON_spec: "isJSON L line = spec_countsStructured L line"
  by (auto simp add: isJSON_def spec_countsStructured_def Let_def split: sum.splits)

lemma isLogfmt_spec: "isLogfmt line = spec_countsFlat line"
  by (auto simp add: isLogfmt_def spec_countsFlat_def)

text \<open>The scores after the loop over the samples are the three counts.\<close>

lemma scoreSamples_counts:
  "scoreSamples L xs sc FormatJSON = sc FormatJSON + int (length (filter (isJSON L) xs))
   \<and> scoreSamples L xs sc FormatLogfmt = sc FormatLogfmt + int (length (filter isLogfmt xs))
   \<and> scoreSamples L xs sc FormatText = sc FormatText + int (length xs)"
proof (induction xs arbitrary: sc)
  case Nil
  then show ?case by simp
next
  case (Cons x xs)
  show ?case
    by (simp add: Cons.IH scoreSample_def Let_def Format_distinct)
qed

text \<open>Exceeding the integer half of a count is exceeding its exact half.\<close>

lemma exceeds_half: "(int j > int t div 2) = (real j > real t / 2)"
  by (simp add: field_simps) linarith

lemma detectFormat_range: "detectFormat L lines \<in> {FormatJSON, FormatLogfmt, FormatText}"
  by (simp add: detectFormat_def Let_def)

text \<open>
  Claim C5.  The detector scores the first \<open>min 10 (length lines)\<close> lines and no
  others.  A line counts towards the structured format iff, trimmed, it starts with
  \<open>{\<close>, ends with \<open>}\<close> and decodes as an object; towards the flat format iff it
  contains \<open>=\<close> and one of \<open>level=\<close>, \<open>msg=\<close>, \<open>time=\<close>, \<open>timestamp=\<close>; every
  line counts towards text.  The result is the structured format iff its score exceeds
  both the flat score and half the text score, else the flat format iff its score
  exceeds half the text score, else text; an empty list gives text.
\<close>

theorem detectFormat_refines_spec:
  "detectFormat L lines = spec_detect L lines
   \<and> detectFormat L lines = detectFormat L (take 10 lines)
   \<and> detectFormat L [] = FormatText"
proof -
  have sz: "(if length lines < 10 then length lines else 10) = min 10 (length lines)"
    by simp
  have spec: "detectFormat L lines = spec_detect L lines"
  proof (cases "lines = []")
    case True
    then show ?thesis by (simp add: detectFormat_def spec_detect_def)
  next
    case False
    then show ?thesis
      unfolding detectFormat_def spec_detect_def Let_def sz
      by (simp add: scoreSamples_counts exceeds_half isJSON_spec [abs_def]
          isLogfmt_spec [abs_def])
  qed
  have sample: "detectFormat L lines = detectFormat L (take 10 lines)"
    by (simp add: detectFormat_def Let_def min_def)
  have empty: "detectFormat L [] = FormatText"
    by (simp add: detectFormat_def)
  from spec sample empty show ?thesis by simp
qed

section \<open>The parser\<close>

lemma cleanLines_filter:
  "cleanLines L lines acc = acc @ filter (\<lambda>l. l \<noteq> []) (map (TrimSpace L) lines)"
  by (induction lines arbitrary: acc) (simp_all add: Let_def)

text \<open>
  Claim C9.  When every line of the input is empty once trimmed, \<open>ParseString\<close>
  returns the empty list of entries and no error, whatever the format of the parser; the
  empty string is such an input, and \<open>parseLines\<close> on no lines returns the same.
\<close>

theorem empty_input_no_entries:
  assumes "list_all (\<lambda>l. TrimSpace L l = []) (Split s (CHR 0x0A))"
  shows "ParseString L p s = Inr []
       \<and> ParseString L p [] = Inr []
       \<and> parseLines L p [] = Inr []"
proof -
  have "filter (\<lambda>l. l \<noteq> []) (map (TrimSpace L) (Split s (CHR 0x0A))) = []"
    using assms by (simp add: list_all_iff filter_empty_conv)
  then have blank: "ParseString L p s = Inr []"
    by (simp add: ParseString_def cleanLines_filter parseLines_def)
  have empty: "ParseString L p [] = Inr []"
    by (simp add: ParseString_def parseLines_def TrimSpace_def Let_def)
  have none: "parseLines L p [] = Inr []"
    by (simp add: parseLines_def)
  from blank empty none show ?thesis by simp
qed

theorem empty_input_no_entries_witness:
  "\<forall>L fmt.
     list_all (\<lambda>l. TrimSpace L l = []) (Split [CHR '' '', CHR 0x0A, CHR 0x09, CHR 0x0A] (CHR 0x0A))
     \<and> ParseString L (NewWithFormat fmt) [CHR '' '', CHR 0x0A, CHR 0x09, CHR 0x0A] = Inr []"
proof (intro allI)
  fix L :: go_lib and fmt :: Format
  have blank:
    "list_all (\<lambda>l. TrimSpace L l = []) (Split [CHR '' '', CHR 0x0A, CHR 0x09, CHR 0x0A] (CHR 0x0A))"
    by (simp add: string_eval)
  show "list_all (\<lambda>l. TrimSpace L l = []) (Split [CHR '' '', CHR 0x0A, CHR 0x09, CHR 0x0A] (CHR 0x0A))
     \<and> ParseString L (NewWithFormat fmt) [CHR '' '', CHR 0x0A, CHR 0x09, CHR 0x0A] = Inr []"
    using empty_input_no_entries [OF blank, of "NewWithFormat fmt"] blank by blast
qed

section \<open>The error policy of the three batch parsers\<close>

lemma parseBatch_ok:
  "(\<And>now l. l \<in> set lines \<Longrightarrow> \<not> isl (f now l)) \<Longrightarrow>
     \<exists>es. parseBatch f L i lines acc = Inr (acc @ es) \<and> length es = length lines"
proof (induction lines arbitrary: i acc)
  case Nil
  then show ?case by simp
next
  case (Cons l lines)
  obtain e where e: "f (time_Now L i) l = Inr e"
    using Cons.prems [of l "time_Now L i"] by (cases "f (time_Now L i) l") auto
  obtain es where "parseBatch f L (Suc i) lines (acc @ [e]) = Inr ((acc @ [e]) @ es)"
      and "length es = length lines"
    using Cons.IH [of "Suc i" "acc @ [e]"] Cons.prems by auto
  then show ?case
    by (intro exI [of _ "e # es"]) (simp add: e)
qed

lemma parseJSONLine_isl:
  "isl (parseJSONLine L now l) =
     (TrimSpace L l = [] \<or> isl (json_Unmarshal L (TrimSpace L l)))"
  by (simp add: parseJSONLine_def Let_def split_beta split: sum.splits)

lemma parseJSONLine_err:
  "TrimSpace L l \<noteq> [] \<Longrightarrow> parseJSONLine L now l = Inl err \<Longrightarrow> \<exists>msg. err = ErrInvalidJSON msg"
  by (auto simp add: parseJSONLine_def Let_def split_beta split: sum.splits)

lemma parseJSON_fail:
  "list_all (\<lambda>l. TrimSpace L l \<noteq> []) lines \<Longrightarrow>
   list_ex (\<lambda>l. isl (json_Unmarshal L (TrimSpace L l))) lines \<Longrightarrow>
     \<exists>msg. parseBatch (parseJSONLine L) L i lines acc = Inl (ErrInvalidJSON msg)"
proof (induction lines arbitrary: i acc)
  case Nil
  then show ?case by simp
next
  case (Cons l lines)
  show ?case
  proof (cases "parseJSONLine L (time_Now L i) l")
    case (Inl err)
    then show ?thesis
      using Cons.prems parseJSONLine_err [of L l "time_Now L i" err] by auto
  next
    case (Inr e)
    then have "\<not> isl (json_Unmarshal L (TrimSpace L l))"
      using parseJSONLine_isl [of L "time_Now L i" l] by simp
    then show ?thesis
      using Cons.prems Cons.IH [of "Suc i" "acc @ [e]"] Inr by simp
  qed
qed

lemma parseLogfmtLine_ok: "TrimSpace L l \<noteq> [] \<Longrightarrow> \<not> isl (parseLogfmtLine L now l)"
  by (simp add: parseLogfmtLine_def Let_def split_beta)

lemma parseTextLine_ok: "TrimSpace L l \<noteq> [] \<Longrightarrow> \<not> isl (parseTextLine L now l ps)"
  by (simp add: parseTextLine_def Let_def)

text \<open>
  Claim C1.  Take a batch of lines that are non-empty once trimmed, and let \<open>fmt\<close> be
  the format the parser runs: its own, or the detected one for \<open>FormatAuto\<close>.  In JSON
  mode, if any line fails to decode as an object, the call returns the decode error and
  no entries.  In every other mode (logfmt, text, and the fallback to text) no line
  fails: the call returns no error and one entry per line.
\<close>

theorem batch_error_policy:
  assumes "list_all (\<lambda>l. TrimSpace L l \<noteq> []) lines"
    and "fmt = (if format p = FormatAuto then detectFormat L lines else format p)"
  shows "(fmt = FormatJSON \<and> list_ex (\<lambda>l. isl (json_Unmarshal L (TrimSpace L l))) lines
            \<longrightarrow> (\<exists>msg. parseLines L p lines = Inl (ErrInvalidJSON msg)))
       \<and> (fmt \<noteq> FormatJSON
            \<longrightarrow> (\<exists>entries. parseLines L p lines = Inr entries \<and> length entries = length lines))"
proof (cases "lines = []")
  case True
  then show ?thesis by (simp add: parseLines_def)
next
  case False
  have nauto: "fmt \<noteq> FormatAuto"
    using assms(2) detectFormat_range [of L lines] by (auto simp add: Format_distinct)
  have ne: "\<And>l. l \<in> set lines \<Longrightarrow> TrimSpace L l \<noteq> []"
    using assms(1) by (simp add: list_all_iff)
  have json: "\<exists>msg. parseLines L p lines = Inl (ErrInvalidJSON msg)"
    if "fmt = FormatJSON" "list_ex (\<lambda>l. isl (json_Unmarshal L (TrimSpace L l))) lines"
    using that False assms parseJSON_fail [of L lines 0 "[]"] nauto
    by (simp add: parseLines_def Let_def parseJSON_def)
  have lf: "\<exists>entries. parseLogfmt L lines = Inr entries \<and> length entries = length lines"
    unfolding parseLogfmt_def
    using parseBatch_ok [of lines "parseLogfmtLine L" L 0 "[]"] ne parseLogfmtLine_ok by simp
  have tx: "\<exists>entries. parseText L lines = Inr entries \<and> length entries = length lines"
    unfolding parseText_def Let_def
    using parseBatch_ok [of lines "\<lambda>now line. parseTextLine L now line (initTextPatterns L)" L 0 "[]"]
      ne parseTextLine_ok by simp
  have other: "\<exists>entries. parseLines L p lines = Inr entries \<and> length entries = length lines"
    if "fmt \<noteq> FormatJSON"
    using that False assms(2) nauto lf tx
    by (simp add: parseLines_def Let_def)
  from json other show ?thesis by blast
qed

theorem batch_error_policy_witness:
  "list_all (\<lambda>l. TrimSpace sample_lib l \<noteq> []) [sample_json_line, ''{invalid json}'']
   \<and> list_ex (\<lambda>l. isl (json_Unmarshal sample_lib (TrimSpace sample_lib l)))
        [sample_json_line, ''{invalid json}'']
   \<and> (\<exists>msg. parseLines sample_lib (NewWithFormat FormatJSON) [sample_json_line, ''{invalid json}'']
          = Inl (ErrInvalidJSON msg))
   \<and> (\<exists>entries. parseLines sample_lib (NewWithFormat FormatLogfmt) [sample_json_line, ''{invalid json}'']
          = Inr entries \<and> length entries = 2)
   \<and> (\<exists>entries. parseLines sample_lib (NewWithFormat FormatText) [sample_json_line, ''{invalid json}'']
          = Inr entries \<and> length entries = 2)"
proof -
  let ?lines = "[sample_json_line, ''{invalid json}'']"
  have t1: "TrimSpace sample_lib sample_json_line = sample_json_line"
    by (simp add: string_eval sample_json_line_def)
  have t2: "TrimSpace sample_lib ''{invalid json}'' = ''{invalid json}''"
    by (simp add: string_eval)
  have ne: "list_all (\<lambda>l. TrimSpace sample_lib l \<noteq> []) ?lines"
    by (simp add: t1 t2) (simp add: sample_json_line_def)
  have bad: "list_ex (\<lambda>l. isl (json_Unmarshal sample_lib (TrimSpace sample_lib l))) ?lines"
    by (simp add: t1 t2) (simp add: sample_eval)
  have fj: "FormatJSON = (if format (NewWithFormat FormatJSON) = FormatAuto
      then detectFormat sample_lib ?lines else format (NewWithFormat FormatJSON))"
    by (simp add: format_eval)
  have fl: "FormatLogfmt = (if format (NewWithFormat FormatLogfmt) = FormatAuto
      then detectFormat sample_lib ?lines else format (NewWithFormat FormatLogfmt))"
    by (simp add: format_eval)
  have ft: "FormatText = (if format (NewWithFormat FormatText) = FormatAuto
      then detectFormat sample_lib ?lines else format (NewWithFormat FormatText))"
    by (simp add: format_eval)
  have j: "\<exists>msg. parseLines sample_lib (NewWithFormat FormatJSON) ?lines = Inl (ErrInvalidJSON msg)"
    using batch_error_policy [OF ne fj, THEN conjunct1] bad by blast
  have l: "\<exists>entries. parseLines sample_lib (NewWithFormat FormatLogfmt) ?lines = Inr entries
      \<and> length entries = 2"
    using batch_error_policy [OF ne fl, THEN conjunct2] by (auto simp add: Format_distinct)
  have t: "\<exists>entries. parseLines sample_lib (NewWithFormat FormatText) ?lines = Inr entries
      \<and> length entries = 2"
    using batch_error_policy [OF ne ft, THEN conjunct2] by (auto simp add: Format_distinct)
  from ne bad j l t show ?thesis by (intro conjI)
qed

section \<open>The structured extractor\<close>

lemma extractJSONTimestamp_keys_fst:
  "fst (extractJSONTimestamp_keys L now ks raw entry) =
     (case spec_firstParsing L raw ks of None \<Rightarrow> raw | Some k \<Rightarrow> raw(k := None))"
  by (induction ks) (auto simp add: spec_firstParsing_def split: option.splits sum.splits)

lemma extractJSONTimestamp_keys_Fields:
  "Fields (snd (extractJSONTimestamp_keys L now ks raw entry)) = Fields entry"
  by (induction ks) (auto split: option.splits sum.splits)

lemma extractJSONTimestamp_keys_Timestamp:
  "(case spec_firstParsing L raw ks of
      None \<Rightarrow> Timestamp (snd (extractJSONTimestamp_keys L now ks raw entry)) =
                (if IsZero (Timestamp entry) then now else Timestamp entry)
    | Some k \<Rightarrow> \<exists>v. raw k = Some v \<and>
        parseTimestamp L v = Inr (Timestamp (snd (extractJSONTimestamp_keys L now ks raw entry))))"
  by (induction ks) (auto simp add: spec_firstParsing_def split: option.splits sum.splits)

lemma extractJSONLevel_keys_fst:
  "fst (extractJSONLevel_keys L ks raw entry) =
     (case spec_firstString raw ks of None \<Rightarrow> raw | Some k \<Rightarrow> raw(k := None))"
  by (induction ks) (auto simp add: spec_firstString_def split: option.splits jvalue.splits)

lemma extractJSONLevel_keys_snd:
  "Fields (snd (extractJSONLevel_keys L ks raw entry)) = Fields entry
   \<and> Timestamp (snd (extractJSONLevel_keys L ks raw entry)) = Timestamp entry"
  by (induction ks) (auto split: option.splits jvalue.splits)

lemma extractMessage_keys_fst:
  "fst (extractMessage_keys ks raw entry) =
     (case spec_firstString raw ks of None \<Rightarrow> raw | Some k \<Rightarrow> raw(k := None))"
  by (induction ks) (auto simp add: spec_firstString_def split: option.splits jvalue.splits)

lemma extractMessage_keys_snd:
  "Fields (snd (extractMessage_keys ks raw entry)) = Fields entry
   \<and> Timestamp (snd (extractMessage_keys ks raw entry)) = Timestamp entry"
  by (induction ks) (auto split: option.splits jvalue.splits)

text \<open>Deleting a key that is not in the list does not change the first string key.\<close>

lemma spec_firstString_delete:
  "k0 \<notin> set ks \<Longrightarrow> spec_firstString (raw(k0 := None)) ks = spec_firstString raw ks"
  unfolding spec_firstString_def
  by (rule find_cong) auto

lemma find_in_set: "List.find P ks = Some k \<Longrightarrow> k \<in> set ks"
  by (auto simp add: find_Some_iff)

lemma parseJSONLine_consumed:
  assumes "TrimSpace L line \<noteq> []" and "json_Unmarshal L (TrimSpace L line) = Inr raw"
    and "tsKey = spec_firstParsing L raw [''timestamp'', ''time'', ''@timestamp'', ''ts'']"
    and "lvlKey = spec_firstString raw [''level'', ''severity'', ''log.level'']"
    and "msgKey = spec_firstString raw [''message'', ''msg'', ''log'']"
  shows "\<exists>e. parseJSONLine L now line = Inr e
     \<and> (case tsKey of
          Some k \<Rightarrow> (\<exists>v. raw k = Some v \<and> parseTimestamp L v = Inr (Timestamp e))
        | None \<Rightarrow> Timestamp e = now)
     \<and> Fields e = (\<lambda>k. if Some k = tsKey \<or> Some k = lvlKey \<or> Some k = msgKey then None else raw k)"
proof -
  let ?init = "\<lparr>Timestamp = zeroTime, Level = [], Message = [], Fields = Map.empty\<rparr>"
  let ?r1 = "extractJSONTimestamp L now raw ?init"
  let ?r2 = "extractJSONLevel L (fst ?r1) (snd ?r1)"
  let ?r3 = "extractJSONMessage (fst ?r2) (snd ?r2)"
  let ?e = "(snd ?r3)\<lparr>Fields := Fields (snd ?r3) ++ fst ?r3\<rparr>"
  have res: "parseJSONLine L now line = Inr ?e"
    using assms(1,2) by (simp add: parseJSONLine_def Let_def split_beta)
  have raw1: "fst ?r1 = (case tsKey of None \<Rightarrow> raw | Some k \<Rightarrow> raw(k := None))"
    unfolding extractJSONTimestamp_def assms(3) by (rule extractJSONTimestamp_keys_fst)
  have ts_in: "k \<in> set [''timestamp'', ''time'', ''@timestamp'', ''ts'']" if "tsKey = Some k" for k
    using that assms(3) find_in_set unfolding spec_firstParsing_def by metis
  have lvl_in: "k \<in> set [''level'', ''severity'', ''log.level'']" if "lvlKey = Some k" for k
    using that assms(4) find_in_set unfolding spec_firstString_def by metis
  have lvl1: "spec_firstString (fst ?r1) [''level'', ''severity'', ''log.level''] = lvlKey"
    unfolding raw1 assms(4)
    using ts_in by (cases tsKey) (auto intro!: spec_firstString_delete)
  have raw2: "fst ?r2 = (case lvlKey of None \<Rightarrow> fst ?r1 | Some k \<Rightarrow> (fst ?r1)(k := None))"
    by (simp only: extractJSONLevel_def extractJSONLevel_keys_fst lvl1)
  have msg1: "spec_firstString (fst ?r1) [''message'', ''msg'', ''log''] = msgKey"
    unfolding raw1 assms(5)
    using ts_in by (cases tsKey) (auto intro!: spec_firstString_delete)
  have msg2: "spec_firstString (fst ?r2) [''message'', ''msg'', ''log''] = msgKey"
    unfolding raw2
    using lvl_in msg1 by (cases lvlKey) (auto simp add: spec_firstString_delete)
  have raw3: "fst ?r3 = (case msgKey of None \<Rightarrow> fst ?r2 | Some k \<Rightarrow> (fst ?r2)(k := None))"
    by (simp only: extractJSONMessage_def extractMessage_keys_fst msg2)
  have fields0: "Fields (snd ?r3) = Map.empty"
    by (simp add: extractJSONMessage_def extractJSONLevel_def extractJSONTimestamp_def
        extractMessage_keys_snd extractJSONLevel_keys_snd extractJSONTimestamp_keys_Fields
        del: extractJSONTimestamp_keys.simps extractJSONLevel_keys.simps extractMessage_keys.simps)
  have "Fields ?e = fst ?r3"
    by (simp add: fields0)
  also have "\<dots> =
      (\<lambda>k. if Some k = tsKey \<or> Some k = lvlKey \<or> Some k = msgKey then None else raw k)"
    unfolding raw3 unfolding raw2 unfolding raw1
    by (auto split: option.splits)
  finally have fields: "Fields ?e =
      (\<lambda>k. if Some k = tsKey \<or> Some k = lvlKey \<or> Some k = msgKey then None else raw k)" .
  define e1 where "e1 = snd ?r1"
  have tse: "Timestamp ?e = Timestamp e1"
    unfolding e1_def
    by (simp add: extractJSONMessage_def extractJSONLevel_def extractMessage_keys_snd
        extractJSONLevel_keys_snd
        del: extractJSONTimestamp_keys.simps extractJSONLevel_keys.simps extractMessage_keys.simps)
  have ts1: "(case tsKey of
          None \<Rightarrow> Timestamp e1 = (if IsZero (Timestamp ?init) then now else Timestamp ?init)
        | Some k \<Rightarrow> (\<exists>v. raw k = Some v \<and> parseTimestamp L v = Inr (Timestamp e1)))"
    unfolding e1_def extractJSONTimestamp_def assms(3)
    by (rule extractJSONTimestamp_keys_Timestamp)
  have ts: "(case tsKey of
          Some k \<Rightarrow> (\<exists>v. raw k = Some v \<and> parseTimestamp L v = Inr (Timestamp ?e))
        | None \<Rightarrow> Timestamp ?e = now)"
    unfolding tse using ts1
    by (cases tsKey) (simp_all add: IsZero_def zeroTime_def)
  from res ts fields show ?thesis by blast
qed

text \<open>
  Claim C2.  Let a line decode as the object \<open>raw\<close>.  The timestamp key consumed is the
  first of \<open>timestamp\<close>, \<open>time\<close>, \<open>@timestamp\<close>, \<open>ts\<close> that is present with a value
  the timestamp parser accepts: the entry's timestamp is the instant parsed from that
  value, and it is the current time when there is no such key.  With the level key and
  the message key consumed likewise (the first present with a string value), the fields
  of the entry are \<open>raw\<close> without the consumed keys: every other key has its original
  value, and no consumed key is a field.
\<close>

theorem parseJSONLine_lifts_and_keeps:
  assumes "TrimSpace L line \<noteq> []" and "json_Unmarshal L (TrimSpace L line) = Inr raw"
  shows "let tsKey = spec_firstParsing L raw [''timestamp'', ''time'', ''@timestamp'', ''ts''];
             lvlKey = spec_firstString raw [''level'', ''severity'', ''log.level''];
             msgKey = spec_firstString raw [''message'', ''msg'', ''log'']
         in \<exists>e. parseJSONLine L now line = Inr e
              \<and> (case tsKey of
                   Some k \<Rightarrow> (\<exists>v. raw k = Some v \<and> parseTimestamp L v = Inr (Timestamp e))
                 | None \<Rightarrow> Timestamp e = now)
              \<and> Fields e =
                  (\<lambda>k. if Some k = tsKey \<or> Some k = lvlKey \<or> Some k = msgKey then None
                       else raw k)"
  unfolding Let_def
  using parseJSONLine_consumed [OF assms refl refl refl] .

theorem parseJSONLine_lifts_and_keeps_witness:
  "TrimSpace sample_lib sample_json_line \<noteq> []
   \<and> json_Unmarshal sample_lib (TrimSpace sample_lib sample_json_line) = Inr sample_raw
   \<and> (\<exists>e. parseJSONLine sample_lib (Time 1 0) sample_json_line = Inr e
         \<and> Timestamp e = sample_instant
         \<and> Fields e = [''service'' \<mapsto> JString ''api''])"
proof -
  have t1: "TrimSpace sample_lib sample_json_line = sample_json_line"
    by (simp add: string_eval sample_json_line_def)
  have ne: "TrimSpace sample_lib sample_json_line \<noteq> []"
    unfolding t1 by (simp add: sample_json_line_def)
  have dec: "json_Unmarshal sample_lib (TrimSpace sample_lib sample_json_line) = Inr sample_raw"
    unfolding t1 by (simp add: sample_lib_def sample_Unmarshal_def)
  have pt: "parseTimestamp sample_lib (JString ''2024-01-02T15:04:05Z'') = Inr sample_instant"
    by (simp add: timestampFormats_def sample_lib_def sample_Parse_def)
  have tk: "spec_firstParsing sample_lib sample_raw [''timestamp'', ''time'', ''@timestamp'', ''ts'']
      = Some ''timestamp''"
    by (simp add: spec_firstParsing_def sample_raw_def pt del: parseTimestamp.simps)
  have lk: "spec_firstString sample_raw [''level'', ''severity'', ''log.level''] = Some ''level''"
    by (simp add: spec_firstString_def sample_raw_def)
  have mk: "spec_firstString sample_raw [''message'', ''msg'', ''log''] = Some ''message''"
    by (simp add: spec_firstString_def sample_raw_def)
  have ts: "sample_raw ''timestamp'' = Some (JString ''2024-01-02T15:04:05Z'')"
    by (simp add: sample_raw_def)
  have fields: "(\<lambda>k. if Some k = Some ''timestamp'' \<or> Some k = Some ''level''
        \<or> Some k = Some ''message'' then None else sample_raw k) = [''service'' \<mapsto> JString ''api'']"
    by (auto simp add: fun_eq_iff sample_raw_def)
  obtain e where e: "parseJSONLine sample_lib (Time 1 0) sample_json_line = Inr e"
      and et: "\<exists>v. sample_raw ''timestamp'' = Some v \<and> parseTimestamp sample_lib v = Inr (Timestamp e)"
      and ef: "Fields e = (\<lambda>k. if Some k = Some ''timestamp'' \<or> Some k = Some ''level''
        \<or> Some k = Some ''message'' then None else sample_raw k)"
    using parseJSONLine_lifts_and_keeps [OF ne dec, of "Time 1 0"]
    unfolding Let_def tk lk mk by auto
  have "Timestamp e = sample_instant"
    using et ts pt by (auto simp del: parseTimestamp.simps)
  then show ?thesis
    using ne dec e ef unfolding fields by blast
qed

section \<open>The pattern matcher\<close>

text \<open>Patterns that do not match are passed over.\<close>

lemma tryPatterns_skip:
  "list_all (\<lambda>p. regex p t = None) ps \<Longrightarrow> tryPatterns L t (ps @ rest) e = tryPatterns L t rest e"
  by (induction ps) simp_all

text \<open>
  Claim C4.  For a line that is non-empty once trimmed, the entry starts with the
  trimmed line as message, level INFO and the zero timestamp.  Extraction never fails.
  When the patterns \<open>ps\<close> in front do not match and \<open>p\<close> matches, the result is what
  \<open>p\<close> and its captures make of the start entry, whatever patterns \<open>qs\<close> follow; when
  no pattern matches, the start entry stands.  In both cases a timestamp that is still
  zero is replaced by the current time.
\<close>

theorem parseTextLine_first_match:
  assumes "TrimSpace L line \<noteq> []"
    and "start = \<lparr>Timestamp = zeroTime, Level = ''INFO'', Message = TrimSpace L line,
                  Fields = Map.empty\<rparr>"
  shows "(\<exists>e. parseTextLine L now line patterns = Inr e)
     \<and> (list_all (\<lambda>p. regex p (TrimSpace L line) = None) ps
          \<and> regex p (TrimSpace L line) = Some m \<longrightarrow>
        parseTextLine L now line (ps @ p # qs) =
          Inr (let e = applyPattern L p m start
               in if IsZero (Timestamp e) then e\<lparr>Timestamp := now\<rparr> else e))
     \<and> (list_all (\<lambda>p. regex p (TrimSpace L line) = None) patterns \<longrightarrow>
        parseTextLine L now line patterns = Inr (start\<lparr>Timestamp := now\<rparr>))"
proof -
  have a: "\<exists>e. parseTextLine L now line patterns = Inr e"
    using assms(1) by (simp add: parseTextLine_def Let_def)
  have b: "parseTextLine L now line (ps @ p # qs) =
          Inr (let e = applyPattern L p m start
               in if IsZero (Timestamp e) then e\<lparr>Timestamp := now\<rparr> else e)"
    if "list_all (\<lambda>p. regex p (TrimSpace L line) = None) ps" "regex p (TrimSpace L line) = Some m"
    using that assms by (simp add: parseTextLine_def Let_def tryPatterns_skip)
  have c: "parseTextLine L now line patterns = Inr (start\<lparr>Timestamp := now\<rparr>)"
    if "list_all (\<lambda>p. regex p (TrimSpace L line) = None) patterns"
    using that assms tryPatterns_skip [of "TrimSpace L line" patterns L "[]" start]
    by (simp add: parseTextLine_def Let_def IsZero_def zeroTime_def)
  from a b c show ?thesis by blast
qed

lemma sample_patterns:
  "initTextPatterns sample_lib =
     [\<lparr>regex = (\<lambda>s. None), tsFormat = ''Jan 02 15:04:05'', tsIndex = 1, lvlIndex = 2,
        msgIndex = 3\<rparr>,
      \<lparr>regex = (\<lambda>s. if s = sample_text_line
                      then Some [s, ''2024-01-02 15:04:05'', ''ERROR'', ''Failed to connect to database'']
                      else None),
        tsFormat = ''2006-01-02 15:04:05'', tsIndex = 1, lvlIndex = 2, msgIndex = 3\<rparr>,
      \<lparr>regex = (\<lambda>s. None), tsFormat = RFC3339, tsIndex = 1, lvlIndex = 2, msgIndex = 3\<rparr>,
      \<lparr>regex = (\<lambda>s. if s = ''[INFO] Starting application''
                      then Some [s, ''INFO'', ''Starting application'']
                      else None),
        tsFormat = [], tsIndex = 0, lvlIndex = 1, msgIndex = 2\<rparr>]"
  by (simp add: initTextPatterns_def patternTable_def sample_lib_def sample_Compile_def
      LevelIndex_def MessageIndex_def MessageIndexAlt_def re_def bslash_def)

theorem parseTextLine_first_match_witness:
  "TrimSpace sample_lib sample_text_line \<noteq> []
   \<and> parseTextLine sample_lib (Time 1 0) sample_text_line (initTextPatterns sample_lib) =
       Inr \<lparr>Timestamp = sample_instant, Level = ''ERROR'',
            Message = ''Failed to connect to database'', Fields = Map.empty\<rparr>
   \<and> parseTextLine sample_lib (Time 1 0) ''hello world'' (initTextPatterns sample_lib) =
       Inr \<lparr>Timestamp = Time 1 0, Level = ''INFO'', Message = ''hello world'',
            Fields = Map.empty\<rparr>"
proof -
  let ?pats = "initTextPatterns sample_lib"
  let ?m = "[sample_text_line, ''2024-01-02 15:04:05'', ''ERROR'', ''Failed to connect to database'']"
  let ?start = "\<lparr>Timestamp = zeroTime, Level = ''INFO'', Message = TrimSpace sample_lib sample_text_line,
                  Fields = Map.empty\<rparr>"
  let ?start2 = "\<lparr>Timestamp = zeroTime, Level = ''INFO'', Message = TrimSpace sample_lib ''hello world'',
                  Fields = Map.empty\<rparr>"
  have t1: "TrimSpace sample_lib sample_text_line = sample_text_line"
    by (simp add: string_eval sample_text_line_def)
  have t2: "TrimSpace sample_lib ''hello world'' = ''hello world''"
    by (simp add: string_eval)
  have ne: "TrimSpace sample_lib sample_text_line \<noteq> []"
    unfolding t1 by (simp add: sample_text_line_def)
  have ne2: "TrimSpace sample_lib ''hello world'' \<noteq> []"
    unfolding t2 by simp
  have split: "?pats = take 1 ?pats @ ?pats ! 1 # drop 2 ?pats"
    unfolding sample_patterns by simp
  have before: "list_all (\<lambda>p. regex p (TrimSpace sample_lib sample_text_line) = None) (take 1 ?pats)"
    unfolding sample_patterns t1 by simp
  have hit: "regex (?pats ! 1) (TrimSpace sample_lib sample_text_line) = Some ?m"
    unfolding sample_patterns t1 by simp
  have none: "list_all (\<lambda>p. regex p (TrimSpace sample_lib ''hello world'') = None) ?pats"
    unfolding sample_patterns t2 by (simp add: sample_text_line_def)
  have applied: "applyPattern sample_lib (?pats ! 1) ?m ?start =
      \<lparr>Timestamp = sample_instant, Level = ''ERROR'',
        Message = ''Failed to connect to database'', Fields = Map.empty\<rparr>"
    unfolding sample_patterns
    by (simp add: applyPattern_def ParseLevel_def LevelInfo_def string_eval sample_lib_def
        sample_Parse_def RFC3339_def)
  have nz: "\<not> IsZero sample_instant"
    by (simp add: IsZero_def sample_instant_def)
  have first: "parseTextLine sample_lib (Time 1 0) sample_text_line
        (take 1 ?pats @ ?pats ! 1 # drop 2 ?pats) =
      Inr \<lparr>Timestamp = sample_instant, Level = ''ERROR'',
            Message = ''Failed to connect to database'', Fields = Map.empty\<rparr>"
    using parseTextLine_first_match [OF ne refl, THEN conjunct2, THEN conjunct1,
        of "take 1 ?pats" "?pats ! 1" ?m "Time 1 0" "drop 2 ?pats"] before hit
    unfolding Let_def applied by (simp add: nz)
  have second: "parseTextLine sample_lib (Time 1 0) ''hello world'' ?pats =
      Inr (?start2\<lparr>Timestamp := Time 1 0\<rparr>)"
    using parseTextLine_first_match [OF ne2 refl, THEN conjunct2, THEN conjunct2,
        of ?pats "Time 1 0"] none by blast
  from ne first second show ?thesis
    unfolding split [symmetric] t2 by simp
qed

section \<open>Examples\<close>

text \<open>The byte E9 read as part of a key becomes the two bytes C3 A9.\<close>

lemma example_byteString: "byteString (CHR 0xE9) = [CHR 0xC3, CHR 0xA9]"
  by (simp add: byteString_def char_of_def bit_Suc_0_iff)

text \<open>The flat line of the README, tokenized.\<close>

lemma example_parseLogfmtPairs:
  \<open>parseLogfmtPairs ''level=error msg="Connection timeout" service=worker duration=1.23'' =
     [''level'' \<mapsto> JString ''error'', ''msg'' \<mapsto> JString ''Connection timeout'',
      ''service'' \<mapsto> JString ''worker'', ''duration'' \<mapsto> JString ''1.23'']\<close>
  by (simp add: parseLogfmtPairs_def lf_finish_def lf_init_def lf_step_def byteString_def
      dquote_def bslash_def)

text \<open>
  A value that ends with a backslash is not properly quoted for this tokenizer: the
  closing quote is taken for an escaped one and becomes part of the value.
\<close>

lemma example_trailing_backslash:
  "parseLogfmtPairs (''k='' @ [dquote] @ ''a'' @ [bslash, dquote]) =
     [''k'' \<mapsto> JString (''a'' @ [bslash, dquote])]"
  by (simp add: parseLogfmtPairs_def lf_finish_def lf_init_def lf_step_def byteString_def
      dquote_def bslash_def)

text \<open>The samples of the detection test: structured, flat and bracketed text lines.\<close>

lemma example_detectFormat:
  "detectFormat sample_lib [sample_json_line, sample_json_line] = FormatJSON"
  "detectFormat L [''level=info msg=test'', ''level=error msg=test2''] = FormatLogfmt"
  "detectFormat L [''[INFO] Starting application'', ''[ERROR] Connection failed''] = FormatText"
proof -
  have t1: "TrimSpace sample_lib sample_json_line = sample_json_line"
    by (simp add: string_eval sample_json_line_def)
  have j: "isJSON sample_lib sample_json_line"
    unfolding isJSON_def Let_def t1
    by (simp add: sample_lib_def sample_Unmarshal_def) (simp add: sample_json_line_def HasPrefix_def HasSuffix_def)
  have l: "isLogfmt sample_json_line = False"
    by (simp add: isLogfmt_def sample_json_line_def HasPrefix_def)
  show "detectFormat sample_lib [sample_json_line, sample_json_line] = FormatJSON"
    by (simp add: detectFormat_def scoreSample_def Let_def j l Format_distinct)
  show "detectFormat L [''level=info msg=test'', ''level=error msg=test2''] = FormatLogfmt"
    by (simp add: detectFormat_def scoreSample_def Let_def isJSON_def isLogfmt_def string_eval
        Format_distinct)
  show "detectFormat L [''[INFO] Starting application'', ''[ERROR] Connection failed''] = FormatText"
    by (simp add: detectFormat_def scoreSample_def Let_def isJSON_def isLogfmt_def string_eval
        Format_distinct)
qed

end
